theory Spec2Isabelle
  imports Complex_Main "HOL-Library.AList"
begin

section \<open>Python values and errors\<close>

text \<open>
  The raw accessibility tree is JSON: the values the parser reads from it are
  \<^verbatim>\<open>None\<close>, booleans, integers and strings. Truthiness is Python's.
\<close>

datatype pyval = PNone | PBool bool | PInt int | PStr string

fun truthy :: "pyval \<Rightarrow> bool" where
  "truthy PNone = False"
| "truthy (PBool b) = b"
| "truthy (PInt i) = (i \<noteq> 0)"
| "truthy (PStr s) = (s \<noteq> [])"

datatype error = AttributeError | ValueError | KeyError | ProviderFailure

text \<open>
  A sub-dictionary such as \<^verbatim>\<open>{'value': v}\<close> stored under a key of a raw
  dictionary: the key may be absent, may hold something that is not a dictionary
  (the flag is that object's truthiness), or may hold a dictionary with or
  without the entry \<^verbatim>\<open>'value'\<close>.
\<close>

datatype 'a field = Absent | NotDict bool | Dict "'a option"

text \<open>\<^verbatim>\<open>d.get(key, {}).get('value', dflt)\<close>: a non-dictionary has no \<^verbatim>\<open>get\<close>.\<close>

fun field_get :: "'a field \<Rightarrow> 'a \<Rightarrow> error + 'a" where
  "field_get Absent dflt = Inr dflt"
| "field_get (NotDict t) dflt = Inl AttributeError"
| "field_get (Dict None) dflt = Inr dflt"
| "field_get (Dict (Some v)) dflt = Inr v"

text \<open>\<^verbatim>\<open>x.get('value', dflt) if x else dflt\<close> with \<^verbatim>\<open>x = d.get(key, {})\<close>.\<close>

fun field_get_if :: "'a field \<Rightarrow> 'a \<Rightarrow> error + 'a" where
  "field_get_if Absent dflt = Inr dflt"
| "field_get_if (NotDict t) dflt = (if t then Inl AttributeError else Inr dflt)"
| "field_get_if (Dict None) dflt = Inr dflt"
| "field_get_if (Dict (Some v)) dflt = Inr v"

text \<open>\<^verbatim>\<open>x.get('value') if x else None\<close> with \<^verbatim>\<open>x = d.get(key, {})\<close>.\<close>

fun field_get_opt :: "'a field \<Rightarrow> error + 'a option" where
  "field_get_opt Absent = Inr None"
| "field_get_opt (NotDict t) = (if t then Inl AttributeError else Inr None)"
| "field_get_opt (Dict v) = Inr v"

section \<open>Configuration (config.py)\<close>

record accessibility_config =
  min_text_length :: int
  max_text_length :: int
  interactive_roles :: "string set"

record indexing_config =
  use_stable_indices :: bool
  cache_duration :: int
  max_elements :: int
  max_interactive :: int

record dom_analyzer_config =
  accessibility :: accessibility_config
  indexing :: indexing_config

definition default_interactive_roles :: "string set" where
  "default_interactive_roles =
     {''button'', ''link'', ''textbox'', ''checkbox'', ''radio'',
      ''combobox'', ''listbox'', ''menu'', ''menuitem'', ''tab'',
      ''dialog'', ''alert'', ''toolbar'', ''grid'', ''gridcell''}"

definition AccessibilityConfig :: accessibility_config where
  "AccessibilityConfig =
     \<lparr>min_text_length = 1, max_text_length = 500,
      interactive_roles = default_interactive_roles\<rparr>"

definition IndexingConfig :: indexing_config where
  "IndexingConfig =
     \<lparr>use_stable_indices = True, cache_duration = 30,
      max_elements = 1000, max_interactive = 200\<rparr>"

definition DOMAnalyzerConfig :: dom_analyzer_config where
  "DOMAnalyzerConfig = \<lparr>accessibility = AccessibilityConfig, indexing = IndexingConfig\<rparr>"

section \<open>Data types (types.py)\<close>

datatype ElementRole =
  BUTTON | LINK | TEXTBOX | CHECKBOX | RADIO | COMBOBOX | LISTBOX | MENU | MENUITEM
| TAB | TABPANEL | DIALOG | ALERT | STATUS | TOOLBAR | TOOLTIP | GRID | GRIDCELL
| ROW | COLUMN | ROWHEADER | COLUMNHEADER | GENERIC

datatype ElementState =
  VISIBLE | HIDDEN | DISABLED | READONLY | REQUIRED | INVALID | EXPANDED | COLLAPSED
| SELECTED | CHECKED | FOCUSED

text \<open>The enumeration's value table: member, member name, member value.\<close>

definition ElementRole_members :: "(ElementRole \<times> string \<times> string) list" where
  "ElementRole_members =
    [(BUTTON, ''BUTTON'', ''button''), (LINK, ''LINK'', ''link''),
     (TEXTBOX, ''TEXTBOX'', ''textbox''), (CHECKBOX, ''CHECKBOX'', ''checkbox''),
     (RADIO, ''RADIO'', ''radio''), (COMBOBOX, ''COMBOBOX'', ''combobox''),
     (LISTBOX, ''LISTBOX'', ''listbox''), (MENU, ''MENU'', ''menu''),
     (MENUITEM, ''MENUITEM'', ''menuitem''), (TAB, ''TAB'', ''tab''),
     (TABPANEL, ''TABPANEL'', ''tabpanel''), (DIALOG, ''DIALOG'', ''dialog''),
     (ALERT, ''ALERT'', ''alert''), (STATUS, ''STATUS'', ''status''),
     (TOOLBAR, ''TOOLBAR'', ''toolbar''), (TOOLTIP, ''TOOLTIP'', ''tooltip''),
     (GRID, ''GRID'', ''grid''), (GRIDCELL, ''GRIDCELL'', ''gridcell''),
     (ROW, ''ROW'', ''row''), (COLUMN, ''COLUMN'', ''column''),
     (ROWHEADER, ''ROWHEADER'', ''rowheader''),
     (COLUMNHEADER, ''COLUMNHEADER'', ''columnheader''),
     (GENERIC, ''GENERIC'', ''generic'')]"

definition ElementState_members :: "(ElementState \<times> string \<times> string) list" where
  "ElementState_members =
    [(VISIBLE, ''VISIBLE'', ''visible''), (HIDDEN, ''HIDDEN'', ''hidden''),
     (DISABLED, ''DISABLED'', ''disabled''), (READONLY, ''READONLY'', ''readonly''),
     (REQUIRED, ''REQUIRED'', ''required''), (INVALID, ''INVALID'', ''invalid''),
     (EXPANDED, ''EXPANDED'', ''expanded''), (COLLAPSED, ''COLLAPSED'', ''collapsed''),
     (SELECTED, ''SELECTED'', ''selected''), (CHECKED, ''CHECKED'', ''checked''),
     (FOCUSED, ''FOCUSED'', ''focused'')]"

text \<open>
  \<^verbatim>\<open>ElementRole(s)\<close> looks a member up by value and raises \<^verbatim>\<open>ValueError\<close>
  when no member has the value \<^verbatim>\<open>s\<close>.
\<close>

fun by_value :: "('e \<times> string \<times> string) list \<Rightarrow> string \<Rightarrow> error + 'e" where
  "by_value [] s = Inl ValueError"
| "by_value ((e, nm, v) # ms) s = (if v = s then Inr e else by_value ms s)"

fun role_value :: "(ElementRole \<times> string \<times> string) list \<Rightarrow> ElementRole \<Rightarrow> string" where
  "role_value [] r = []"
| "role_value ((e, nm, v) # ms) r = (if e = r then v else role_value ms r)"

text \<open>The dictionary representation: association lists in insertion order.\<close>

type_synonym ('k, 'v) dict = "('k \<times> 'v) list"

record AccessibilityNode =
  node_id :: int
  role :: string
  name :: string
  node_value :: "string option"
  description :: "string option"
  state :: "(string, pyval) dict"
  children :: "int list"
  parent_id :: "int option"
  backend_dom_node_id :: "int option"

record IndexedElement =
  ie_index :: int
  ie_role :: ElementRole
  ie_text :: string
  ie_tag_name :: string
  ie_attributes :: "(string, string) dict"
  ie_states :: "ElementState list"
  ie_xpath :: string
  ie_bounding_box :: "(string, int) dict option"
  ie_is_interactive :: bool
  ie_parent_index :: "int option"
  ie_children_indices :: "int list"

section \<open>Accessibility parser (accessibility\_parser.py)\<close>

record AXProperty =
  ax_name :: pyval
  ax_value :: pyval
  ax_source :: string

record ParsedAXNode =
  p_node_id :: int
  p_role :: string
  p_name :: string
  p_value :: "string option"
  p_description :: "string option"
  p_properties :: "AXProperty list"
  p_states :: "string list"
  p_children :: "int list"
  p_parent_id :: "int option"
  p_backend_dom_node_id :: "int option"
  p_ignored :: bool
  p_is_interactive :: bool

text \<open>
  One entry of the raw \<^verbatim>\<open>properties\<close> list: a dictionary with the
  sub-dictionaries \<^verbatim>\<open>name\<close> and \<^verbatim>\<open>value\<close>, or something that is not a
  dictionary.
\<close>

datatype prop_data = PropDict "pyval field" "pyval field" | PropNotDict

text \<open>
  A raw node: the keys the parser reads. A top-level key that is absent is
  \<open>None\<close>; \<^verbatim>\<open>properties\<close>, \<^verbatim>\<open>childIds\<close> default to the empty list.
\<close>

record node_data =
  nd_nodeId :: "int option"
  nd_role :: "string field"
  nd_name :: "string field"
  nd_value :: "string field"
  nd_description :: "string field"
  nd_properties :: "prop_data list"
  nd_checked :: "pyval option"
  nd_expanded :: "pyval option"
  nd_selected :: "pyval option"
  nd_disabled :: "pyval option"
  nd_readonly :: "pyval option"
  nd_required :: "pyval option"
  nd_invalid :: "pyval option"
  nd_focused :: "pyval option"
  nd_hidden :: "pyval option"
  nd_childIds :: "int list"
  nd_parentId :: "int option"
  nd_backendDOMNodeId :: "int option"
  nd_ignored :: "bool option"

definition important_states :: "string set" where
  "important_states =
     {''expanded'', ''collapsed'', ''selected'', ''checked'', ''pressed'',
      ''disabled'', ''readonly'', ''required'', ''invalid'', ''focused'',
      ''hidden'', ''visible'', ''busy'', ''live''}"

text \<open>\<^verbatim>\<open>x in S\<close> for a set of strings: only a string can be a member.\<close>

fun py_in :: "pyval \<Rightarrow> string set \<Rightarrow> bool" where
  "py_in (PStr s) S = (s \<in> S)"
| "py_in v S = False"

fun py_str :: "pyval \<Rightarrow> string" where
  "py_str (PStr s) = s"
| "py_str v = []"

text \<open>\<^verbatim>\<open>node_data.get(key)\<close> used as a condition.\<close>

fun get_truthy :: "pyval option \<Rightarrow> bool" where
  "get_truthy None = False"
| "get_truthy (Some v) = truthy v"

text \<open>
  The loop of \<^verbatim>\<open>_parse_node_properties\<close>. The flag is \<open>False\<close> when an entry
  raised: the \<^verbatim>\<open>except\<close> clause then keeps what was collected so far.
\<close>

fun parse_properties_loop :: "prop_data list \<Rightarrow> AXProperty list \<Rightarrow> AXProperty list \<times> bool" where
  "parse_properties_loop [] properties = (properties, True)"
| "parse_properties_loop (PropNotDict # rest) properties = (properties, False)"
| "parse_properties_loop (PropDict n v # rest) properties =
     (case field_get n (PStr []) of
        Inl e \<Rightarrow> (properties, False)
      | Inr prop_name \<Rightarrow>
         (case field_get v PNone of
            Inl e \<Rightarrow> (properties, False)
          | Inr prop_value \<Rightarrow>
              parse_properties_loop rest
                (if truthy prop_name \<and> prop_value \<noteq> PNone
                 then properties @ [\<lparr>ax_name = prop_name, ax_value = prop_value,
                                     ax_source = ''accessibility''\<rparr>]
                 else properties)))"

definition top_property :: "string \<Rightarrow> pyval option \<Rightarrow> AXProperty list" where
  "top_property key v =
     (case v of None \<Rightarrow> []
      | Some x \<Rightarrow> [\<lparr>ax_name = PStr key, ax_value = x, ax_source = ''node''\<rparr>])"

definition parse_node_properties :: "node_data \<Rightarrow> AXProperty list" where
  "parse_node_properties nd =
     (case parse_properties_loop (nd_properties nd) [] of
        (properties, False) \<Rightarrow> properties
      | (properties, True) \<Rightarrow>
          properties @ top_property ''checked'' (nd_checked nd)
            @ top_property ''expanded'' (nd_expanded nd)
            @ top_property ''selected'' (nd_selected nd)
            @ top_property ''disabled'' (nd_disabled nd))"

text \<open>The loop of \<^verbatim>\<open>_extract_node_states\<close>, with the same treatment of a raise.\<close>

fun extract_states_loop :: "prop_data list \<Rightarrow> string list \<Rightarrow> string list \<times> bool" where
  "extract_states_loop [] states = (states, True)"
| "extract_states_loop (PropNotDict # rest) states = (states, False)"
| "extract_states_loop (PropDict n v # rest) states =
     (case field_get n (PStr []) of
        Inl e \<Rightarrow> (states, False)
      | Inr prop_name \<Rightarrow>
         (case field_get v PNone of
            Inl e \<Rightarrow> (states, False)
          | Inr prop_value \<Rightarrow>
              extract_states_loop rest
                (if py_in prop_name important_states \<and> truthy prop_value
                 then states @ [py_str prop_name] else states)))"

definition top_state :: "string \<Rightarrow> pyval option \<Rightarrow> string list" where
  "top_state key v = (if get_truthy v then [key] else [])"

definition extract_node_states :: "node_data \<Rightarrow> string list" where
  "extract_node_states nd =
     (case extract_states_loop (nd_properties nd) [] of
        (states, False) \<Rightarrow> states
      | (states, True) \<Rightarrow>
          states @ top_state ''checked'' (nd_checked nd)
            @ top_state ''expanded'' (nd_expanded nd)
            @ top_state ''selected'' (nd_selected nd)
            @ top_state ''disabled'' (nd_disabled nd)
            @ top_state ''readonly'' (nd_readonly nd)
            @ top_state ''required'' (nd_required nd)
            @ top_state ''invalid'' (nd_invalid nd)
            @ top_state ''focused'' (nd_focused nd)
            @ (if get_truthy (nd_hidden nd) then [''hidden''] else [''visible'']))"

text \<open>\<^verbatim>\<open>_is_node_interactive\<close>: four checks in the source's order.\<close>

definition is_node_interactive :: "accessibility_config \<Rightarrow> ParsedAXNode \<Rightarrow> bool" where
  "is_node_interactive cfg node =
     (if p_role node \<in> interactive_roles cfg then True
      else if list_ex (\<lambda>state. state \<in> {''button'', ''link'', ''menuitem'', ''tab''})
                (p_states node) then True
      else if list_ex (\<lambda>prop. py_in (ax_name prop) {''clickable'', ''pressable'', ''selectable''}
                              \<and> truthy (ax_value prop)) (p_properties node) then True
      else if list_ex (\<lambda>prop. py_in (ax_name prop)
                              {''onclick'', ''onkeydown'', ''onkeyup'', ''onsubmit''})
                (p_properties node) then True
      else False)"

text \<open>
  \<^verbatim>\<open>str.strip()\<close> removes leading and trailing white space. The
  characters of the model are the code points below 256; among them Python
  counts as white space the controls 9 to 13 and 28 to 31, the space, the next
  line control U+0085 and the no-break space U+00A0.
\<close>

definition is_space :: "char \<Rightarrow> bool" where
  "is_space c = (of_char c \<in> {9, 10, 11, 12, 13, 28, 29, 30, 31, 32, 133, 160 :: nat})"

definition strip :: "string \<Rightarrow> string" where
  "strip s = rev (dropWhile is_space (rev (dropWhile is_space s)))"

definition is_text_valid :: "accessibility_config \<Rightarrow> string \<Rightarrow> bool" where
  "is_text_valid cfg text =
     (if text = [] then False
      else (let text_length = int (length (strip text))
            in text_length \<ge> min_text_length cfg \<and> text_length \<le> max_text_length cfg))"

text \<open>
  \<^verbatim>\<open>_parse_single_node\<close>: \<open>None\<close> when the node raised and is skipped. The
  classification flag is set by the second pass.
\<close>

definition parse_single_node :: "accessibility_config \<Rightarrow> node_data \<Rightarrow> ParsedAXNode option" where
  "parse_single_node cfg nd =
     (case field_get_if (nd_role nd) ''generic'' of
        Inl e \<Rightarrow> None
      | Inr role_v \<Rightarrow>
     (case field_get_if (nd_name nd) [] of
        Inl e \<Rightarrow> None
      | Inr name_v \<Rightarrow>
     (case field_get_opt (nd_value nd) of
        Inl e \<Rightarrow> None
      | Inr value_v \<Rightarrow>
     (case field_get_opt (nd_description nd) of
        Inl e \<Rightarrow> None
      | Inr description_v \<Rightarrow>
          Some \<lparr>p_node_id = (case nd_nodeId nd of None \<Rightarrow> 0 | Some i \<Rightarrow> i),
                p_role = role_v,
                p_name = (if is_text_valid cfg name_v then name_v else []),
                p_value = value_v,
                p_description = description_v,
                p_properties = parse_node_properties nd,
                p_states = extract_node_states nd,
                p_children = nd_childIds nd,
                p_parent_id = nd_parentId nd,
                p_backend_dom_node_id = nd_backendDOMNodeId nd,
                p_ignored = (case nd_ignored nd of None \<Rightarrow> False | Some b \<Rightarrow> b),
                p_is_interactive = False\<rparr>))))"

text \<open>
  \<^verbatim>\<open>_convert_to_accessibility_node\<close>: every state label becomes a key
  with value \<^verbatim>\<open>True\<close>; the properties and the classification flag are not
  carried over (\<^verbatim>\<open>AccessibilityNode\<close> has no field for them).
\<close>

definition state_dict_of :: "string list \<Rightarrow> (string, pyval) dict" where
  "state_dict_of states = fold (\<lambda>s d. AList.update s (PBool True) d) states []"

definition convert_to_accessibility_node :: "ParsedAXNode \<Rightarrow> AccessibilityNode" where
  "convert_to_accessibility_node parsed_node =
     \<lparr>node_id = p_node_id parsed_node,
      role = p_role parsed_node,
      name = p_name parsed_node,
      node_value = p_value parsed_node,
      description = p_description parsed_node,
      state = state_dict_of (p_states parsed_node),
      children = p_children parsed_node,
      parent_id = p_parent_id parsed_node,
      backend_dom_node_id = p_backend_dom_node_id parsed_node\<rparr>"

text \<open>The second pass of \<^verbatim>\<open>parse_accessibility_tree\<close> on one node.\<close>

definition classify_node :: "accessibility_config \<Rightarrow> ParsedAXNode \<Rightarrow> ParsedAXNode" where
  "classify_node cfg node = node\<lparr>p_is_interactive := is_node_interactive cfg node\<rparr>"

text \<open>
  \<^verbatim>\<open>parse_accessibility_tree\<close>: the argument is the list under the key
  \<^verbatim>\<open>nodes\<close>, or \<open>None\<close> when the data is empty or has no such key.
\<close>

definition parse_accessibility_tree ::
  "accessibility_config \<Rightarrow> node_data list option \<Rightarrow> AccessibilityNode list" where
  "parse_accessibility_tree cfg ax_tree_data =
     (case ax_tree_data of
        None \<Rightarrow> []
      | Some nodes_data \<Rightarrow>
          map convert_to_accessibility_node
            (map (classify_node cfg) (List.map_filter (parse_single_node cfg) nodes_data)))"

text \<open>A raw node with no key at all, and a parsed node with empty fields.\<close>

definition empty_node_data :: node_data where
  "empty_node_data =
     \<lparr>nd_nodeId = None, nd_role = Absent, nd_name = Absent, nd_value = Absent,
      nd_description = Absent, nd_properties = [], nd_checked = None, nd_expanded = None,
      nd_selected = None, nd_disabled = None, nd_readonly = None, nd_required = None,
      nd_invalid = None, nd_focused = None, nd_hidden = None, nd_childIds = [],
      nd_parentId = None, nd_backendDOMNodeId = None, nd_ignored = None\<rparr>"

text \<open>The raw property entry \<^verbatim>\<open>{'name': {'value': k}, 'value': {'value': v}}\<close>.\<close>

definition raw_property :: "string \<Rightarrow> pyval \<Rightarrow> prop_data" where
  "raw_property k v = PropDict (Dict (Some (PStr k))) (Dict (Some v))"

text \<open>
  What one well-formed property entry contributes to the state list, and whether
  an entry is a dictionary whose \<^verbatim>\<open>name\<close> and \<^verbatim>\<open>value\<close> can be read.
\<close>

fun prop_state :: "prop_data \<Rightarrow> string option" where
  "prop_state PropNotDict = None"
| "prop_state (PropDict n v) =
     (case (field_get n (PStr []), field_get v PNone) of
        (Inr prop_name, Inr prop_value) \<Rightarrow>
          (if py_in prop_name important_states \<and> truthy prop_value
           then Some (py_str prop_name) else None)
      | _ \<Rightarrow> None)"

fun prop_readable :: "prop_data \<Rightarrow> bool" where
  "prop_readable PropNotDict = False"
| "prop_readable (PropDict n v) =
     (case (field_get n (PStr []), field_get v PNone) of
        (Inr prop_name, Inr prop_value) \<Rightarrow> True
      | _ \<Rightarrow> False)"

section \<open>Element indexer (element\_indexer.py)\<close>

record IndexedNode =
  in_node :: AccessibilityNode
  in_index :: int
  in_parent_index :: "int option"
  in_children_indices :: "int list"
  in_depth :: int
  in_is_new :: bool
  in_bounding_box :: "(string, int) dict option"
  in_xpath :: string
  in_tag_name :: string
  in_attributes :: "(string, string) dict"
  in_is_interactive :: bool
  in_interactive_type :: string

record indexing_stats =
  total_indexed :: int
  interactive_indexed :: int
  cached_hits :: int
  cache_misses :: int

text \<open>
  The mutable fields of \<^verbatim>\<open>ElementIndexer\<close>. The logger and the
  \<^verbatim>\<open>IndexingContext\<close> (time stamp and MD5 digest, kept for
  \<^verbatim>\<open>get_indexing_stats\<close> only) are left out; no index depends on them.
\<close>

record ElementIndexer =
  element_counter :: int
  index_to_node :: "(int, IndexedNode) dict"
  node_id_to_index :: "(int, int) dict"
  xpath_to_index :: "(string, int) dict"
  previous_indices :: "(int, int) dict"
  previous_xpaths :: "(string, int) dict"
  stats :: indexing_stats

definition new_ElementIndexer :: ElementIndexer where
  "new_ElementIndexer =
     \<lparr>element_counter = 0, index_to_node = [], node_id_to_index = [], xpath_to_index = [],
      previous_indices = [], previous_xpaths = [],
      stats = \<lparr>total_indexed = 0, interactive_indexed = 0, cached_hits = 0,
                cache_misses = 0\<rparr>\<rparr>"

definition should_index_node :: "dom_analyzer_config \<Rightarrow> AccessibilityNode \<Rightarrow> bool" where
  "should_index_node cfg node =
     (if (case map_of (state node) ''hidden'' of None \<Rightarrow> False | Some v \<Rightarrow> truthy v)
      then False
      else if name node = [] \<and> role node = ''generic'' then False
      else if name node \<noteq> []
              \<and> int (length (name node)) > max_text_length (accessibility cfg) then False
      else True)"

definition determine_index_type :: "AccessibilityNode \<Rightarrow> string" where
  "determine_index_type node =
     (if role node \<in> {''button'', ''link'', ''textbox'', ''checkbox'', ''radio'',
                        ''combobox'', ''listbox'', ''menu'', ''menuitem'', ''tab'',
                        ''dialog'', ''alert'', ''toolbar'', ''grid'', ''gridcell''}
      then ''interactive''
      else if list_ex (\<lambda>s. map_of (state node) s \<noteq> None)
                [''clickable'', ''pressable'', ''selectable'', ''focusable'']
      then ''interactive''
      else ''element'')"

definition new_index :: "ElementIndexer \<Rightarrow> int \<times> ElementIndexer" where
  "new_index st =
     (element_counter st,
      st\<lparr>element_counter := element_counter st + 1,
         stats := (stats st)\<lparr>cache_misses := cache_misses (stats st) + 1\<rparr>\<rparr>)"

definition cache_hit :: "ElementIndexer \<Rightarrow> int \<Rightarrow> int \<times> ElementIndexer" where
  "cache_hit st cached_index =
     (cached_index, st\<lparr>stats := (stats st)\<lparr>cached_hits := cached_hits (stats st) + 1\<rparr>\<rparr>)"

definition get_or_create_interactive_index ::
  "ElementIndexer \<Rightarrow> AccessibilityNode \<Rightarrow> int \<times> ElementIndexer" where
  "get_or_create_interactive_index st node =
     (case map_of (node_id_to_index st) (node_id node) of
        None \<Rightarrow> new_index st
      | Some cached_index \<Rightarrow>
          (case map_of (index_to_node st) cached_index of
             None \<Rightarrow> new_index st
           | Some cached_node \<Rightarrow>
               if in_is_interactive cached_node then cache_hit st cached_index
               else new_index st))"

definition get_or_create_element_index ::
  "ElementIndexer \<Rightarrow> AccessibilityNode \<Rightarrow> int \<times> ElementIndexer" where
  "get_or_create_element_index st node =
     (case map_of (node_id_to_index st) (node_id node) of
        None \<Rightarrow> new_index st
      | Some cached_index \<Rightarrow>
          (case map_of (index_to_node st) cached_index of
             None \<Rightarrow> new_index st
           | Some cached_node \<Rightarrow> cache_hit st cached_index))"

definition get_parent_index :: "ElementIndexer \<Rightarrow> AccessibilityNode \<Rightarrow> int option" where
  "get_parent_index st node =
     (case parent_id node of None \<Rightarrow> None
      | Some pid \<Rightarrow> map_of (node_id_to_index st) pid)"

definition get_children_indices :: "ElementIndexer \<Rightarrow> AccessibilityNode \<Rightarrow> int list" where
  "get_children_indices st node =
     List.map_filter (map_of (node_id_to_index st)) (children node)"

text \<open>
  The \<^verbatim>\<open>while\<close> loop of \<^verbatim>\<open>_calculate_depth\<close>. Nothing bounds it, so it
  is a partial function: \<open>None\<close> is the walk that never leaves the loop.
\<close>

partial_function (option) calculate_depth_loop ::
  "ElementIndexer \<Rightarrow> int option \<Rightarrow> int \<Rightarrow> int option" where
  "calculate_depth_loop st current_parent_id depth =
     (case current_parent_id of
        None \<Rightarrow> Some depth
      | Some pid \<Rightarrow>
          (case map_of (node_id_to_index st) pid of
             None \<Rightarrow> Some (depth + 1)
           | Some parent_index \<Rightarrow>
               (case map_of (index_to_node st) parent_index of
                  None \<Rightarrow> Some (depth + 1)
                | Some parent_node \<Rightarrow>
                    calculate_depth_loop st (parent_id (in_node parent_node)) (depth + 1))))"

definition calculate_depth :: "ElementIndexer \<Rightarrow> AccessibilityNode \<Rightarrow> int option" where
  "calculate_depth st node = calculate_depth_loop st (parent_id node) 0"

text \<open>\<^verbatim>\<open>s.replace(c, '\\' + c)\<close> for a single character \<open>c\<close>.\<close>

definition escape_char :: "char \<Rightarrow> string \<Rightarrow> string" where
  "escape_char c s = concat (map (\<lambda>x. if x = c then [CHR 0x5C, c] else [x]) s)"

definition clean_for_xpath :: "string \<Rightarrow> string" where
  "clean_for_xpath s = escape_char (CHR 0x27) (escape_char (CHR 0x22) s)"

definition generate_xpath :: "AccessibilityNode \<Rightarrow> string" where
  "generate_xpath node =
     (let parts =
            (if role node \<noteq> [] \<and> role node \<noteq> ''generic'' then [role node] else [])
            @ (if name node \<noteq> []
               then [''[@name='' @ [CHR 0x22] @ clean_for_xpath (name node) @ [CHR 0x22] @ '']'']
               else [])
            @ (case node_value node of
                 None \<Rightarrow> []
               | Some v \<Rightarrow>
                   if v \<noteq> []
                   then [''[@value='' @ [CHR 0x22] @ clean_for_xpath v @ [CHR 0x22] @ '']'']
                   else []);
          parts' = (if parts = [] then [''generic''] else parts)
      in ''//'' @ concat parts')"

definition is_node_new :: "ElementIndexer \<Rightarrow> AccessibilityNode \<Rightarrow> bool" where
  "is_node_new st node =
     (if map_of (previous_indices st) (node_id node) \<noteq> None then False
      else if map_of (previous_xpaths st) (generate_xpath node) \<noteq> None then False
      else True)"

definition extract_tag_name :: "AccessibilityNode \<Rightarrow> string" where
  "extract_tag_name node = (if role node \<noteq> [] then role node else ''generic'')"

definition extract_attributes :: "AccessibilityNode \<Rightarrow> (string, string) dict" where
  "extract_attributes node =
     (let a0 = fold (\<lambda>(state_name, state_value) attributes.
                       if state_value = PBool True then AList.update state_name ''true'' attributes
                       else if state_value = PBool False
                         then AList.update state_name ''false'' attributes
                       else attributes) (state node) [];
          a1 = (if role node \<noteq> [] then AList.update ''role'' (role node) a0 else a0);
          a2 = (if name node \<noteq> [] then AList.update ''name'' (name node) a1 else a1)
      in (case node_value node of
            None \<Rightarrow> a2
          | Some v \<Rightarrow> if v \<noteq> [] then AList.update ''value'' v a2 else a2))"

text \<open>
  \<^verbatim>\<open>_convert_to_indexed_element\<close>. A state name is looked up among the
  member names of \<^verbatim>\<open>ElementState\<close> and then constructed by value, where a
  \<^verbatim>\<open>ValueError\<close> is swallowed; \<^verbatim>\<open>ElementRole(role)\<close> is not guarded and
  raises for a role outside the vocabulary.
\<close>

definition element_states :: "(string, pyval) dict \<Rightarrow> ElementState list" where
  "element_states st =
     concat (map (\<lambda>(state_name, state_value).
                    if state_name \<in> set (map (\<lambda>(e, nm, v). nm) ElementState_members)
                    then (case by_value ElementState_members state_name of
                            Inl e \<Rightarrow> [] | Inr state_enum \<Rightarrow> [state_enum])
                    else []) st)"

definition convert_to_indexed_element :: "IndexedNode \<Rightarrow> error + IndexedElement" where
  "convert_to_indexed_element indexed_node =
     (case (if role (in_node indexed_node) \<noteq> []
            then by_value ElementRole_members (role (in_node indexed_node))
            else Inr GENERIC) of
        Inl e \<Rightarrow> Inl e
      | Inr r \<Rightarrow>
          Inr \<lparr>ie_index = in_index indexed_node,
               ie_role = r,
               ie_text = name (in_node indexed_node),
               ie_tag_name = in_tag_name indexed_node,
               ie_attributes = in_attributes indexed_node,
               ie_states = element_states (state (in_node indexed_node)),
               ie_xpath = in_xpath indexed_node,
               ie_bounding_box = in_bounding_box indexed_node,
               ie_is_interactive = in_is_interactive indexed_node,
               ie_parent_index = in_parent_index indexed_node,
               ie_children_indices = in_children_indices indexed_node\<rparr>)"

text \<open>
  \<^verbatim>\<open>_index_single_node\<close>. The outer \<open>None\<close> is the depth walk that does not
  return; the inner \<open>None\<close> is the source's \<^verbatim>\<open>return None\<close>, for a node that
  is filtered out and for the \<^verbatim>\<open>ValueError\<close> caught after the maps were
  written.
\<close>

definition index_single_node ::
  "dom_analyzer_config \<Rightarrow> ElementIndexer \<Rightarrow> AccessibilityNode
     \<Rightarrow> (IndexedElement option \<times> ElementIndexer) option" where
  "index_single_node cfg st node =
     (if \<not> should_index_node cfg node then Some (None, st)
      else
        let index_type = determine_index_type node;
            (index, st1) = (if index_type = ''interactive''
                            then get_or_create_interactive_index st node
                            else get_or_create_element_index st node)
        in (case calculate_depth st1 node of
              None \<Rightarrow> None
            | Some depth \<Rightarrow>
                let indexed_node =
                      \<lparr>in_node = node,
                       in_index = index,
                       in_parent_index = get_parent_index st1 node,
                       in_children_indices = get_children_indices st1 node,
                       in_depth = depth,
                       in_is_new = is_node_new st1 node,
                       in_bounding_box = None,
                       in_xpath = generate_xpath node,
                       in_tag_name = extract_tag_name node,
                       in_attributes = extract_attributes node,
                       in_is_interactive = (index_type = ''interactive''),
                       in_interactive_type =
                         (if index_type = ''interactive'' then index_type else [])\<rparr>;
                    st2 = st1\<lparr>index_to_node := AList.update index indexed_node (index_to_node st1),
                              node_id_to_index :=
                                AList.update (node_id node) index (node_id_to_index st1),
                              xpath_to_index :=
                                AList.update (in_xpath indexed_node) index (xpath_to_index st1)\<rparr>
                in (case convert_to_indexed_element indexed_node of
                      Inl e \<Rightarrow> Some (None, st2)
                    | Inr indexed_element \<Rightarrow> Some (Some indexed_element, st2))))"

text \<open>The \<^verbatim>\<open>for\<close> loop of \<^verbatim>\<open>index_elements\<close>.\<close>

fun index_loop ::
  "dom_analyzer_config \<Rightarrow> ElementIndexer \<Rightarrow> AccessibilityNode list \<Rightarrow> IndexedElement list
     \<Rightarrow> (IndexedElement list \<times> ElementIndexer) option" where
  "index_loop cfg st [] indexed_elements = Some (indexed_elements, st)"
| "index_loop cfg st (node # rest) indexed_elements =
     (case index_single_node cfg st node of
        None \<Rightarrow> None
      | Some (None, st') \<Rightarrow> index_loop cfg st' rest indexed_elements
      | Some (Some indexed_element, st') \<Rightarrow>
          index_loop cfg st' rest (indexed_elements @ [indexed_element]))"

definition update_indexing_stats :: "ElementIndexer \<Rightarrow> int \<Rightarrow> ElementIndexer" where
  "update_indexing_stats st n =
     st\<lparr>stats := (stats st)
          \<lparr>total_indexed := n,
           interactive_indexed :=
             int (length (filter in_is_interactive (map snd (index_to_node st))))\<rparr>\<rparr>"

definition save_current_indices :: "ElementIndexer \<Rightarrow> ElementIndexer" where
  "save_current_indices st =
     st\<lparr>previous_indices := node_id_to_index st, previous_xpaths := xpath_to_index st\<rparr>"

definition index_elements ::
  "dom_analyzer_config \<Rightarrow> ElementIndexer \<Rightarrow> AccessibilityNode list
     \<Rightarrow> (IndexedElement list \<times> ElementIndexer) option" where
  "index_elements cfg st accessibility_nodes =
     (let st0 = st\<lparr>element_counter := 0, index_to_node := [], node_id_to_index := [],
                    xpath_to_index := []\<rparr>
      in (case index_loop cfg st0 accessibility_nodes [] of
            None \<Rightarrow> None
          | Some (indexed_elements, st1) \<Rightarrow>
              Some (indexed_elements,
                    save_current_indices
                      (update_indexing_stats st1 (int (length indexed_elements))))))"

text \<open>The list comprehension with a conversion that may raise.\<close>

fun convert_all :: "IndexedNode list \<Rightarrow> error + IndexedElement list" where
  "convert_all [] = Inr []"
| "convert_all (n # ns) =
     (case convert_to_indexed_element n of
        Inl e \<Rightarrow> Inl e
      | Inr el \<Rightarrow> (case convert_all ns of Inl e \<Rightarrow> Inl e | Inr els \<Rightarrow> Inr (el # els)))"


definition get_interactive_elements :: "ElementIndexer \<Rightarrow> error + IndexedElement list" where
  "get_interactive_elements st =
     (case convert_all (filter in_is_interactive (map snd (index_to_node st))) of
        Inl e \<Rightarrow> Inl e
      | Inr interactive_elements \<Rightarrow> Inr (sort_key ie_index interactive_elements))"



section \<open>DOM analyzer (dom\_analyzer.py)\<close>

record PageAnalysisResult =
  r_target_id :: string
  r_timestamp :: real
  r_url :: string
  r_title :: string
  r_accessibility_nodes :: "AccessibilityNode list"
  r_indexed_elements :: "IndexedElement list"
  r_interactive_elements :: "IndexedElement list"
  r_page_metrics :: "(string, pyval) dict option"
  r_dom_hash :: string
  r_analysis_time :: real
  r_total_elements :: int
  r_interactive_count :: int

record analysis_stats =
  total_analyses :: int
  cache_hits :: int
  analysis_cache_misses :: int
  total_analysis_time :: real

record DOMAnalyzer =
  element_indexer :: ElementIndexer
  analysis_cache :: "(string, PageAnalysisResult) dict"
  last_analysis_time :: "(string, real) dict"
  analysis_stats :: analysis_stats

definition new_DOMAnalyzer :: DOMAnalyzer where
  "new_DOMAnalyzer =
     \<lparr>element_indexer = new_ElementIndexer, analysis_cache = [], last_analysis_time = [],
      analysis_stats = \<lparr>total_analyses = 0, cache_hits = 0, analysis_cache_misses = 0,
                         total_analysis_time = 0\<rparr>\<rparr>"

text \<open>
  What one call of \<^verbatim>\<open>analyze_page\<close> reads from outside: the three readings of
  the clock (on entry, inside \<^verbatim>\<open>_should_use_cached_result\<close>, and when the
  result is assembled), and the answers of the CDP client. A \<open>None\<close> for the
  page information or the tree is a request that failed, which the source turns
  into an exception; the page metrics are optional. Time is a real number.
\<close>

record call_env =
  clock_start :: real
  clock_check :: real
  clock_end :: real
  cdp_connected :: bool
  cdp_connect_ok :: bool
  page_info :: "(string \<times> string) option"
  accessibility_tree :: "node_data list option option"
  page_metrics :: "(string, pyval) dict option"

text \<open>\<^verbatim>\<open>str(n)\<close> for an integer, as the f-strings of the digest need it.\<close>

fun str_nat :: "nat \<Rightarrow> string" where
  "str_nat n = (if n < 10 then [char_of (48 + n)]
                else str_nat (n div 10) @ [char_of (48 + n mod 10)])"

definition str_int :: "int \<Rightarrow> string" where
  "str_int i = (if i < 0 then CHR ''-'' # str_nat (nat (- i)) else str_nat (nat i))"

text \<open>
  \<^verbatim>\<open>_calculate_dom_hash\<close>: the digest function of \<^verbatim>\<open>hashlib\<close> is a
  parameter.
\<close>

definition calculate_dom_hash ::
  "(string \<Rightarrow> string) \<Rightarrow> AccessibilityNode list \<Rightarrow> IndexedElement list \<Rightarrow> string" where
  "calculate_dom_hash md5 accessibility_nodes indexed_elements =
     md5 (concat (map (\<lambda>node. str_int (node_id node) @ '':'' @ role node @ '':'' @ name node
                               @ '':'' @ (case node_value node of None \<Rightarrow> ''None'' | Some v \<Rightarrow> v)
                               @ ''|'') accessibility_nodes)
          @ concat (map (\<lambda>element. str_int (ie_index element) @ '':''
                               @ role_value ElementRole_members (ie_role element) @ '':''
                               @ ie_text element @ ''|'') indexed_elements))"

definition should_use_cached_result ::
  "dom_analyzer_config \<Rightarrow> DOMAnalyzer \<Rightarrow> string \<Rightarrow> real \<Rightarrow> bool" where
  "should_use_cached_result cfg st target_id now =
     (if map_of (analysis_cache st) target_id = None then False
      else (case map_of (last_analysis_time st) target_id of
              None \<Rightarrow> False
            | Some t \<Rightarrow>
                (let cache_age = now - t;
                     max_cache_age = cache_duration (indexing cfg)
                 in cache_age < real_of_int max_cache_age)))"

definition update_analysis_stats :: "DOMAnalyzer \<Rightarrow> real \<Rightarrow> DOMAnalyzer" where
  "update_analysis_stats st analysis_time =
     st\<lparr>analysis_stats := (analysis_stats st)
          \<lparr>total_analyses := total_analyses (analysis_stats st) + 1,
           total_analysis_time := total_analysis_time (analysis_stats st) + analysis_time\<rparr>\<rparr>"

text \<open>
  \<^verbatim>\<open>analyze_page\<close>. The result is \<open>None\<close> when the indexer's depth walk
  does not return, \<open>Inl\<close> for the exception the source re-raises, \<open>Inr\<close>
  for the returned result; the analyzer's new state comes with it.
\<close>

definition analyze_page ::
  "dom_analyzer_config \<Rightarrow> (string \<Rightarrow> string) \<Rightarrow> call_env \<Rightarrow> DOMAnalyzer \<Rightarrow> string \<Rightarrow> bool
     \<Rightarrow> ((error + PageAnalysisResult) \<times> DOMAnalyzer) option" where
  "analyze_page cfg md5 env st target_id force_refresh =
     (let start_time = clock_start env in
      if \<not> force_refresh \<and> should_use_cached_result cfg st target_id (clock_check env)
      then
        (let st1 = st\<lparr>analysis_stats := (analysis_stats st)
                        \<lparr>cache_hits := cache_hits (analysis_stats st) + 1\<rparr>\<rparr>
         in (case map_of (analysis_cache st1) target_id of
               None \<Rightarrow> Some (Inl KeyError, st1)
             | Some cached_result \<Rightarrow> Some (Inr cached_result, st1)))
      else
        (let st1 = st\<lparr>analysis_stats := (analysis_stats st)
                        \<lparr>analysis_cache_misses :=
                           analysis_cache_misses (analysis_stats st) + 1\<rparr>\<rparr>
         in if \<not> cdp_connected env \<and> \<not> cdp_connect_ok env
            then Some (Inl ProviderFailure, st1)
            else
         (case page_info env of
            None \<Rightarrow> Some (Inl ProviderFailure, st1)
          | Some (url, title) \<Rightarrow>
         (case accessibility_tree env of
            None \<Rightarrow> Some (Inl ProviderFailure, st1)
          | Some tree \<Rightarrow>
              (let accessibility_nodes = parse_accessibility_tree (accessibility cfg) tree
               in (case index_elements cfg (element_indexer st1) accessibility_nodes of
                     None \<Rightarrow> None
                   | Some (indexed_elements, ix) \<Rightarrow>
                       (let st2 = st1\<lparr>element_indexer := ix\<rparr>
                        in (case get_interactive_elements ix of
                              Inl e \<Rightarrow> Some (Inl e, st2)
                            | Inr interactive_elements \<Rightarrow>
                                (let analysis_time = clock_end env - start_time;
                                     result =
                                       \<lparr>r_target_id = target_id,
                                        r_timestamp = start_time,
                                        r_url = url,
                                        r_title = title,
                                        r_accessibility_nodes = accessibility_nodes,
                                        r_indexed_elements = indexed_elements,
                                        r_interactive_elements = interactive_elements,
                                        r_page_metrics = page_metrics env,
                                        r_dom_hash = calculate_dom_hash md5 accessibility_nodes
                                                       indexed_elements,
                                        r_analysis_time = analysis_time,
                                        r_total_elements = int (length indexed_elements),
                                        r_interactive_count =
                                          int (length interactive_elements)\<rparr>;
                                     st3 = st2\<lparr>analysis_cache :=
                                                  AList.update target_id result (analysis_cache st2),
                                                last_analysis_time :=
                                                  AList.update target_id start_time
                                                    (last_analysis_time st2)\<rparr>
                                 in Some (Inr result,
                                          update_analysis_stats st3 analysis_time))))))))))"

text \<open>
  \<^verbatim>\<open>DOMAnalyzer.clear_cache\<close>: the test \<^verbatim>\<open>if target_id:\<close> sends
  \<^verbatim>\<open>None\<close> and the empty string to the branch that clears every key.
\<close>

definition clear_cache :: "DOMAnalyzer \<Rightarrow> string option \<Rightarrow> DOMAnalyzer" where
  "clear_cache st target_id =
     (case target_id of
        None \<Rightarrow> st\<lparr>analysis_cache := [], last_analysis_time := []\<rparr>
      | Some t \<Rightarrow>
          if t \<noteq> []
          then st\<lparr>analysis_cache := AList.delete t (analysis_cache st),
                  last_analysis_time := AList.delete t (last_analysis_time st)\<rparr>
          else st\<lparr>analysis_cache := [], last_analysis_time := []\<rparr>)"

section \<open>Example inputs\<close>

definition button_data :: node_data where
  "button_data = empty_node_data\<lparr>nd_role := Dict (Some ''button'')\<rparr>"

definition onclick_false_data :: node_data where
  "onclick_false_data =
     empty_node_data\<lparr>nd_properties := [raw_property ''onclick'' (PBool False)]\<rparr>"

definition hidden_property_data :: node_data where
  "hidden_property_data =
     empty_node_data\<lparr>nd_properties := [raw_property ''hidden'' (PBool True)]\<rparr>"

definition hidden_disabled_data :: node_data where
  "hidden_disabled_data =
     empty_node_data\<lparr>nd_role := Dict (Some ''button''),
                      nd_properties := [raw_property ''disabled'' (PBool True)],
                      nd_hidden := Some (PBool True)\<rparr>"

definition clickable_parsed :: ParsedAXNode where
  "clickable_parsed =
     \<lparr>p_node_id = 42, p_role = ''generic'', p_name = ''Save'', p_value = None,
      p_description = None,
      p_properties = [\<lparr>ax_name = PStr ''clickable'', ax_value = PBool True,
                        ax_source = ''accessibility''\<rparr>],
      p_states = [''visible''], p_children = [], p_parent_id = None,
      p_backend_dom_node_id = None, p_ignored = False, p_is_interactive = False\<rparr>"

definition button_parsed :: ParsedAXNode where
  "button_parsed =
     \<lparr>p_node_id = 1, p_role = ''button'', p_name = ''Submit'', p_value = None,
      p_description = None, p_properties = parse_node_properties button_data,
      p_states = extract_node_states button_data, p_children = [], p_parent_id = None,
      p_backend_dom_node_id = None, p_ignored = False, p_is_interactive = False\<rparr>"



definition cache_consistent :: "DOMAnalyzer \<Rightarrow> bool" where
  "cache_consistent st \<longleftrightarrow>
     (\<forall>t r. map_of (analysis_cache st) t = Some r
            \<longrightarrow> map_of (last_analysis_time st) t = Some (r_timestamp r))"




definition submit_node :: AccessibilityNode where
  "submit_node =
     \<lparr>node_id = 1, role = ''button'', name = ''Submit'', node_value = None,
      description = None, state = [(''visible'', PBool True)], children = [],
      parent_id = None, backend_dom_node_id = None\<rparr>"


definition hidden_button_parsed :: ParsedAXNode where
  "hidden_button_parsed =
     \<lparr>p_node_id = 3, p_role = ''button'', p_name = ''Close'', p_value = None,
      p_description = None, p_properties = [], p_states = [''disabled'', ''hidden''],
      p_children = [], p_parent_id = None, p_backend_dom_node_id = None,
      p_ignored = False, p_is_interactive = True\<rparr>"

definition heading_node :: AccessibilityNode where
  "heading_node =
     \<lparr>node_id = 5, role = ''heading'', name = ''Title'', node_value = None,
      description = None, state = [(''visible'', PBool True)], children = [],
      parent_id = None, backend_dom_node_id = None\<rparr>"

text \<open>
  The depth walk with a bound on the number of parent hops: \<open>None\<close> when the
  bound is used up before the chain ends. It is the yardstick for the unbounded
  loop of the source, not a model of it.
\<close>

fun calculate_depth_fuel :: "nat \<Rightarrow> ElementIndexer \<Rightarrow> int option \<Rightarrow> int \<Rightarrow> int option" where
  "calculate_depth_fuel n st None depth = Some depth"
| "calculate_depth_fuel 0 st (Some pid) depth = None"
| "calculate_depth_fuel (Suc n) st (Some pid) depth =
     (case map_of (node_id_to_index st) pid of
        None \<Rightarrow> Some (depth + 1)
      | Some parent_index \<Rightarrow>
          (case map_of (index_to_node st) parent_index of
             None \<Rightarrow> Some (depth + 1)
           | Some parent_node \<Rightarrow>
               calculate_depth_fuel n st (parent_id (in_node parent_node)) (depth + 1)))"

definition plain_node :: "int \<Rightarrow> string \<Rightarrow> string \<Rightarrow> int option \<Rightarrow> AccessibilityNode" where
  "plain_node i r n p =
     \<lparr>node_id = i, role = r, name = n, node_value = None, description = None,
      state = [(''visible'', PBool True)], children = [], parent_id = p,
      backend_dom_node_id = None\<rparr>"

definition cyclic_nodes :: "AccessibilityNode list" where
  "cyclic_nodes =
     [plain_node 1 ''button'' ''A'' (Some 2),
      plain_node 2 ''button'' ''B'' (Some 1),
      plain_node 3 ''button'' ''C'' (Some 1)]"

definition dangling_node :: AccessibilityNode where
  "dangling_node = plain_node 4 ''link'' ''Home'' (Some 99)"

definition cancel_node :: AccessibilityNode where
  "cancel_node = plain_node 41 ''button'' ''Cancel'' None"

definition save_node :: AccessibilityNode where
  "save_node = plain_node 42 ''button'' ''Save'' None"

text \<open>Two raw nodes without the key \<^verbatim>\<open>nodeId\<close>: both get the default identifier 0.\<close>

definition unnumbered_data :: "node_data list" where
  "unnumbered_data =
     [empty_node_data\<lparr>nd_role := Dict (Some ''button''), nd_name := Dict (Some ''A'')\<rparr>,
      empty_node_data\<lparr>nd_role := Dict (Some ''button''), nd_name := Dict (Some ''B'')\<rparr>]"

text \<open>
  A raw node marked hidden whose only property entry has a plain string under
  \<^verbatim>\<open>name\<close> instead of a dictionary.
\<close>

definition unreadable_property_data :: node_data where
  "unreadable_property_data =
     empty_node_data\<lparr>nd_role := Dict (Some ''button''), nd_name := Dict (Some ''Close''),
                      nd_properties := [PropDict (NotDict True) (Dict (Some (PBool True)))],
                      nd_hidden := Some (PBool True)\<rparr>"

text \<open>A configuration whose maximum text length is negative.\<close>

definition negative_length_config :: dom_analyzer_config where
  "negative_length_config =
     DOMAnalyzerConfig\<lparr>accessibility := AccessibilityConfig\<lparr>max_text_length := - 1\<rparr>\<rparr>"

text \<open>The raw snapshot that the parser turns into \<open>cyclic_nodes\<close>.\<close>

definition cyclic_data :: "node_data list" where
  "cyclic_data =
     [empty_node_data\<lparr>nd_nodeId := Some 1, nd_role := Dict (Some ''button''),
                       nd_name := Dict (Some ''A''), nd_parentId := Some 2\<rparr>,
      empty_node_data\<lparr>nd_nodeId := Some 2, nd_role := Dict (Some ''button''),
                       nd_name := Dict (Some ''B''), nd_parentId := Some 1\<rparr>,
      empty_node_data\<lparr>nd_nodeId := Some 3, nd_role := Dict (Some ''button''),
                       nd_name := Dict (Some ''C''), nd_parentId := Some 1\<rparr>]"

text \<open>
  What every entry of the index-to-node map satisfies during a pass over the
  given nodes: the keys are distinct, each stored node carries its key as its
  index, wraps a node of the input, and is flagged by the category rule.
\<close>

definition stored_ok :: "AccessibilityNode list \<Rightarrow> ElementIndexer \<Rightarrow> bool" where
  "stored_ok nodes st \<longleftrightarrow>
     distinct (map fst (index_to_node st))
     \<and> list_all (\<lambda>(k, n). in_index n = k \<and> in_node n \<in> set nodes
                    \<and> in_is_interactive n = (determine_index_type (in_node n) = ''interactive''))
          (index_to_node st)"

text \<open>The role strings that \<^verbatim>\<open>ElementRole(...)\<close> accepts.\<close>

definition role_values :: "string set" where
  "role_values = set (map (\<lambda>(e, nm, v). v) ElementRole_members)"



section \<open>Parser: interactivity classification\<close>

lemma py_in_iff: "py_in v S \<longleftrightarrow> (\<exists>k \<in> S. v = PStr k)"
  by (cases v) auto

text \<open>
  Claim C6. After the classification pass a parsed node is flagged interactive
  if and only if its role is in the configured interactive-role vocabulary, or
  one of its state labels is button, link, menuitem or tab, or one of its
  extracted properties is named clickable, pressable or selectable and has a
  truthy value, or one of its extracted properties is named onclick, onkeydown,
  onkeyup or onsubmit, whatever its value.
\<close>

theorem is_node_interactive_iff:
  "p_is_interactive (classify_node cfg node) \<longleftrightarrow>
     (p_role node \<in> interactive_roles cfg
      \<or> (\<exists>s \<in> set (p_states node). s \<in> {''button'', ''link'', ''menuitem'', ''tab''})
      \<or> (\<exists>prop \<in> set (p_properties node).
            (\<exists>k \<in> {''clickable'', ''pressable'', ''selectable''}. ax_name prop = PStr k)
            \<and> truthy (ax_value prop))
      \<or> (\<exists>prop \<in> set (p_properties node).
            (\<exists>k \<in> {''onclick'', ''onkeydown'', ''onkeyup'', ''onsubmit''}.
               ax_name prop = PStr k)))"
  unfolding classify_node_def is_node_interactive_def list_ex_iff py_in_iff
  by simp

text \<open>
  The three instances the claim names, on nodes parsed from raw data with the
  default configuration: role button is interactive; role generic with the
  state visible only and no property is not; role generic with the raw
  property onclick of value \<^verbatim>\<open>False\<close> keeps that property and is interactive.
\<close>

theorem is_node_interactive_iff_witness:
  "(case parse_single_node AccessibilityConfig button_data of
      None \<Rightarrow> False
    | Some p \<Rightarrow> p_role p = ''button'' \<and> p_is_interactive (classify_node AccessibilityConfig p))
   \<and> (case parse_single_node AccessibilityConfig empty_node_data of
      None \<Rightarrow> False
    | Some p \<Rightarrow> p_role p = ''generic'' \<and> p_properties p = [] \<and> p_states p = [''visible'']
               \<and> \<not> p_is_interactive (classify_node AccessibilityConfig p))
   \<and> (case parse_single_node AccessibilityConfig onclick_false_data of
      None \<Rightarrow> False
    | Some p \<Rightarrow> p_role p = ''generic'' \<and> map ax_value (p_properties p) = [PBool False]
               \<and> p_is_interactive (classify_node AccessibilityConfig p))"
  using is_node_interactive_iff
          [of AccessibilityConfig "the (parse_single_node AccessibilityConfig button_data)"]
        is_node_interactive_iff
          [of AccessibilityConfig "the (parse_single_node AccessibilityConfig empty_node_data)"]
        is_node_interactive_iff
          [of AccessibilityConfig
              "the (parse_single_node AccessibilityConfig onclick_false_data)"]
  by (simp add: parse_single_node_def parse_node_properties_def extract_node_states_def
        empty_node_data_def raw_property_def is_text_valid_def top_property_def top_state_def
        important_states_def AccessibilityConfig_def default_interactive_roles_def
        button_data_def onclick_false_data_def)

section \<open>Parser: visibility labels\<close>

lemma extract_states_loop_prefix:
  "extract_states_loop ps acc
     = (acc @ List.map_filter prop_state (takeWhile prop_readable ps),
        list_all prop_readable ps)"
proof (induction ps arbitrary: acc)
  case Nil
  then show ?case by (simp add: List.map_filter_simps)
next
  case (Cons p ps)
  then show ?case
    by (cases p) (auto simp: List.map_filter_simps split: sum.splits)
qed

lemma top_state_visibility:
  "''hidden'' \<notin> set (top_state ''checked'' a @ top_state ''expanded'' b
       @ top_state ''selected'' c @ top_state ''disabled'' d @ top_state ''readonly'' e
       @ top_state ''required'' f @ top_state ''invalid'' g @ top_state ''focused'' h)
   \<and> ''visible'' \<notin> set (top_state ''checked'' a @ top_state ''expanded'' b
       @ top_state ''selected'' c @ top_state ''disabled'' d @ top_state ''readonly'' e
       @ top_state ''required'' f @ top_state ''invalid'' g @ top_state ''focused'' h)"
  by (simp add: top_state_def)

text \<open>
  Claim C7 says that the state list holds exactly one of hidden and visible for
  every raw node the parser accepts. It does not, in two ways. A raw node
  without the top-level key \<^verbatim>\<open>hidden\<close> whose property list has the entry
  hidden with value \<^verbatim>\<open>True\<close> gets both labels, because hidden and visible
  belong to \<^verbatim>\<open>important_states\<close> and the property loop appends them as
  well. A raw node marked hidden whose property entry cannot be read gets neither
  label: the entry raises, the \<^verbatim>\<open>except\<close> clause keeps the labels collected
  so far, and the visibility rule is never reached. The parser accepts both
  nodes.
\<close>

theorem extract_node_states_both_labels:
  "''hidden'' \<in> set (extract_node_states hidden_property_data)
   \<and> ''visible'' \<in> set (extract_node_states hidden_property_data)
   \<and> parse_single_node AccessibilityConfig hidden_property_data \<noteq> None
   \<and> get_truthy (nd_hidden unreadable_property_data)
   \<and> extract_node_states unreadable_property_data = []
   \<and> parse_single_node AccessibilityConfig unreadable_property_data \<noteq> None"
  by (simp add: extract_node_states_def hidden_property_data_def empty_node_data_def
        raw_property_def important_states_def top_state_def parse_single_node_def
        unreadable_property_data_def)

text \<open>
  Claim C7, amended, for every raw node. The list holds the label hidden exactly
  when every property entry can be read and the node is marked hidden, or a
  property entry before the first unreadable one contributes hidden; it holds
  the label visible exactly when every property entry can be read and the node
  is not marked hidden, or such an entry contributes visible. So the list holds
  exactly one of the two labels, the one the marker asks for, when every entry
  can be read and none contributes hidden or visible, and then that label is
  the last of the list; with an unreadable entry the list is just the labels of
  the entries before it.
\<close>

theorem extract_node_states_visibility:
  "(''hidden'' \<in> set (extract_node_states nd)
      \<longleftrightarrow> (list_all prop_readable (nd_properties nd) \<and> get_truthy (nd_hidden nd))
          \<or> list_ex (\<lambda>p. prop_state p = Some ''hidden'')
               (takeWhile prop_readable (nd_properties nd)))
   \<and> (''visible'' \<in> set (extract_node_states nd)
      \<longleftrightarrow> (list_all prop_readable (nd_properties nd) \<and> \<not> get_truthy (nd_hidden nd))
          \<or> list_ex (\<lambda>p. prop_state p = Some ''visible'')
               (takeWhile prop_readable (nd_properties nd)))
   \<and> (list_all prop_readable (nd_properties nd)
      \<longrightarrow> last (extract_node_states nd)
            = (if get_truthy (nd_hidden nd) then ''hidden'' else ''visible''))
   \<and> (\<not> list_all prop_readable (nd_properties nd)
      \<longrightarrow> extract_node_states nd
            = List.map_filter prop_state (takeWhile prop_readable (nd_properties nd)))"
proof -
  let ?ps = "nd_properties nd"
  let ?pre = "List.map_filter prop_state (takeWhile prop_readable ?ps)"
  have pre: "s \<in> set ?pre
               \<longleftrightarrow> list_ex (\<lambda>p. prop_state p = Some s) (takeWhile prop_readable ?ps)" for s
    by (force simp: map_filter_def list_ex_iff image_iff)
  show ?thesis
  proof (cases "list_all prop_readable ?ps")
    case True
    then have "extract_node_states nd
        = ?pre @ (top_state ''checked'' (nd_checked nd) @ top_state ''expanded'' (nd_expanded nd)
            @ top_state ''selected'' (nd_selected nd) @ top_state ''disabled'' (nd_disabled nd)
            @ top_state ''readonly'' (nd_readonly nd) @ top_state ''required'' (nd_required nd)
            @ top_state ''invalid'' (nd_invalid nd) @ top_state ''focused'' (nd_focused nd))
          @ [if get_truthy (nd_hidden nd) then ''hidden'' else ''visible'']"
      by (simp add: extract_node_states_def extract_states_loop_prefix)
    then show ?thesis
      using True pre[of "''hidden''"] pre[of "''visible''"]
        top_state_visibility[of "nd_checked nd" "nd_expanded nd" "nd_selected nd"
          "nd_disabled nd" "nd_readonly nd" "nd_required nd" "nd_invalid nd" "nd_focused nd"]
      by auto
  next
    case False
    then have "extract_node_states nd = ?pre"
      by (simp add: extract_node_states_def extract_states_loop_prefix)
    then show ?thesis using False pre[of "''hidden''"] pre[of "''visible''"] by simp
  qed
qed

theorem extract_node_states_visibility_witness:
  "list_all prop_readable (nd_properties hidden_disabled_data)
   \<and> get_truthy (nd_hidden hidden_disabled_data)
   \<and> \<not> list_ex (\<lambda>p. prop_state p = Some ''hidden'' \<or> prop_state p = Some ''visible'')
          (nd_properties hidden_disabled_data)
   \<and> last (extract_node_states hidden_disabled_data) = ''hidden''
   \<and> ''hidden'' \<in> set (extract_node_states hidden_disabled_data)
   \<and> ''visible'' \<notin> set (extract_node_states hidden_disabled_data)
   \<and> \<not> list_all prop_readable (nd_properties unreadable_property_data)
   \<and> ''hidden'' \<notin> set (extract_node_states unreadable_property_data)
   \<and> ''visible'' \<notin> set (extract_node_states unreadable_property_data)"
  using extract_node_states_visibility [of hidden_disabled_data]
    extract_node_states_visibility [of unreadable_property_data]
  by (simp add: hidden_disabled_data_def unreadable_property_data_def empty_node_data_def
        raw_property_def important_states_def List.map_filter_simps)

section \<open>Indexer category against parser classification\<close>

lemma map_of_state_dict_of_aux:
  "map_of (fold (\<lambda>s d. AList.update s (PBool True) d) xs d0) k
     = (if k \<in> set xs then Some (PBool True) else map_of d0 k)"
  by (induction xs arbitrary: d0) (auto simp: update_conv')

lemma map_of_state_dict_of:
  "map_of (state_dict_of xs) k = (if k \<in> set xs then Some (PBool True) else None)"
  by (simp add: state_dict_of_def map_of_state_dict_of_aux)

lemma determine_index_type_convert:
  "determine_index_type (convert_to_accessibility_node p) = ''interactive'' \<longleftrightarrow>
     p_role p \<in> default_interactive_roles
     \<or> (\<exists>s \<in> {''clickable'', ''pressable'', ''selectable'', ''focusable''}. s \<in> set (p_states p))"
  by (auto simp: determine_index_type_def convert_to_accessibility_node_def
        map_of_state_dict_of default_interactive_roles_def)

lemma extract_states_subset_aux:
  "set (fst (extract_states_loop ps acc)) \<subseteq> set acc \<union> important_states"
proof (induction ps arbitrary: acc)
  case Nil
  then show ?case by simp
next
  case (Cons p ps)
  show ?case
  proof (cases p)
    case PropNotDict
    then show ?thesis by simp
  next
    case (PropDict n v)
    show ?thesis
    proof (cases "field_get n (PStr [])")
      case (Inl e)
      then show ?thesis using PropDict by simp
    next
      case (Inr pn)
      note pn = this
      show ?thesis
      proof (cases "field_get v PNone")
        case (Inl e)
        then show ?thesis using PropDict pn by simp
      next
        case (Inr pv)
        have "py_in pn important_states \<Longrightarrow> py_str pn \<in> important_states"
          by (cases pn) auto
        then show ?thesis
          using PropDict pn Inr Cons.IH[of "if py_in pn important_states \<and> truthy pv then acc @ [py_str pn] else acc"]
          by (auto split: if_splits)
      qed
    qed
  qed
qed

lemma extract_node_states_subset:
  "set (extract_node_states nd) \<subseteq> important_states \<union> {''hidden'', ''visible''}"
proof -
  obtain sts ok where r: "extract_states_loop (nd_properties nd) [] = (sts, ok)"
    by (cases "extract_states_loop (nd_properties nd) []")
  have sub: "set sts \<subseteq> important_states"
    using extract_states_subset_aux[of "nd_properties nd" "[]"] r by simp
  have tops: "{''checked'', ''expanded'', ''selected'', ''disabled'', ''readonly'',
               ''required'', ''invalid'', ''focused''} \<subseteq> important_states"
    by (simp add: important_states_def)
  show ?thesis
  proof (cases ok)
    case True
    then show ?thesis
      using sub tops by (auto simp: extract_node_states_def r top_state_def)
  next
    case False
    then show ?thesis
      using sub by (auto simp: extract_node_states_def r)
  qed
qed

text \<open>
  Claim C2 says that the indexer's category agrees with the parser's
  classification. It does not: the parsed node with role generic and the
  property clickable of value \<^verbatim>\<open>True\<close> is interactive for the parser,
  and the indexer, which reads the role and the keys of the state dictionary
  only, puts the converted node into the category element.
\<close>

theorem determine_index_type_differs:
  "p_is_interactive (classify_node AccessibilityConfig clickable_parsed)
   \<and> determine_index_type (convert_to_accessibility_node clickable_parsed) = ''element''"
  by (simp add: classify_node_def is_node_interactive_def clickable_parsed_def
        AccessibilityConfig_def default_interactive_roles_def determine_index_type_def
        convert_to_accessibility_node_def state_dict_of_def)

text \<open>
  Claim C2, amended. For every node the parser produces (its state labels are
  those of \<^verbatim>\<open>_extract_node_states\<close>), the indexer's category of the
  converted node is interactive exactly when the role is one of the fifteen
  interactive roles; with the default configuration this implies that the
  parser classifies the node as interactive, and not conversely.
\<close>

theorem determine_index_type_parsed:
  assumes "p_states p = extract_node_states nd"
  shows "(determine_index_type (convert_to_accessibility_node p) = ''interactive''
            \<longleftrightarrow> p_role p \<in> default_interactive_roles)
         \<and> (determine_index_type (convert_to_accessibility_node p) = ''interactive''
            \<longrightarrow> p_is_interactive (classify_node AccessibilityConfig p))"
proof -
  have "\<forall>s \<in> {''clickable'', ''pressable'', ''selectable'', ''focusable''}.
          s \<notin> set (p_states p)"
    using extract_node_states_subset[of nd] assms
    by (auto simp: important_states_def)
  then have eq: "determine_index_type (convert_to_accessibility_node p) = ''interactive''
            \<longleftrightarrow> p_role p \<in> default_interactive_roles"
    by (simp add: determine_index_type_convert)
  show ?thesis
    using eq by (simp add: classify_node_def is_node_interactive_def AccessibilityConfig_def)
qed

theorem determine_index_type_parsed_witness:
  "p_states button_parsed = extract_node_states button_data
   \<and> determine_index_type (convert_to_accessibility_node button_parsed) = ''interactive''
   \<and> p_role button_parsed \<in> default_interactive_roles
   \<and> p_is_interactive (classify_node AccessibilityConfig button_parsed)"
  using determine_index_type_parsed [of button_parsed button_data]
  by (simp add: button_parsed_def default_interactive_roles_def)

section \<open>Analyzer: cache invalidation\<close>




section \<open>Analyzer: cache validity window\<close>

text \<open>The analyzer keeps each stored result together with its own time stamp.\<close>

lemma cache_consistent_new: "cache_consistent new_DOMAnalyzer"
  by (simp add: cache_consistent_def new_DOMAnalyzer_def)

lemma cache_consistent_clear_cache:
  "cache_consistent st \<Longrightarrow> cache_consistent (clear_cache st target_id)"
  by (auto simp: cache_consistent_def clear_cache_def delete_conv' split: option.splits if_splits)

lemma cache_consistent_analyze_page:
  assumes "cache_consistent st"
    and "analyze_page cfg digest env st t force_refresh = Some (out, st')"
  shows "cache_consistent st'"
  using assms
  by (auto simp: analyze_page_def cache_consistent_def update_analysis_stats_def Let_def
        update_conv' split: if_splits option.splits prod.splits sum.splits)





lemmas parse_eval =
  parse_accessibility_tree_def parse_single_node_def parse_node_properties_def
  extract_node_states_def empty_node_data_def raw_property_def is_text_valid_def strip_def
  is_space_def top_property_def top_state_def important_states_def AccessibilityConfig_def
  DOMAnalyzerConfig_def IndexingConfig_def default_interactive_roles_def classify_node_def
  is_node_interactive_def convert_to_accessibility_node_def state_dict_of_def
  List.map_filter_simps

lemmas index_eval =
  index_elements_def index_single_node_def should_index_node_def determine_index_type_def
  get_or_create_interactive_index_def get_or_create_element_index_def new_index_def
  cache_hit_def get_parent_index_def get_children_indices_def calculate_depth_def
  calculate_depth_loop.simps generate_xpath_def clean_for_xpath_def escape_char_def
  is_node_new_def extract_tag_name_def extract_attributes_def element_states_def
  convert_to_indexed_element_def ElementRole_members_def ElementState_members_def
  update_indexing_stats_def save_current_indices_def new_ElementIndexer_def Let_def
  AccessibilityConfig_def DOMAnalyzerConfig_def IndexingConfig_def List.map_filter_simps




section \<open>Indexer: the depth walk\<close>

lemma calculate_depth_fuel_loop:
  "calculate_depth_fuel n st p d = Some r \<Longrightarrow> calculate_depth_loop st p d = Some r"
proof (induction n arbitrary: p d)
  case 0
  then show ?case
    by (cases p) (simp_all add: calculate_depth_loop.simps)
next
  case (Suc n)
  show ?case
  proof (cases p)
    case None
    then show ?thesis using Suc.prems by (simp add: calculate_depth_loop.simps)
  next
    case (Some pid)
    show ?thesis
      using Suc.prems Suc.IH
      by (subst calculate_depth_loop.simps) (auto simp: Some split: option.splits)
  qed
qed

lemma calculate_depth_loop_fuel:
  assumes "calculate_depth_loop st p d = Some r"
  shows "\<exists>n. calculate_depth_fuel n st p d = Some r"
  using assms
proof (rule calculate_depth_loop.raw_induct
         [rotated, where P = "\<lambda>st p d r. \<exists>n. calculate_depth_fuel n st p d = Some r"])
  fix f :: "ElementIndexer \<Rightarrow> int option \<Rightarrow> int \<Rightarrow> int option" and st p d r
  assume IH: "\<And>st p d r. f st p d = Some r \<Longrightarrow> \<exists>n. calculate_depth_fuel n st p d = Some r"
    and eq: "(case p of None \<Rightarrow> Some d
      | Some pid \<Rightarrow>
          (case map_of (node_id_to_index st) pid of None \<Rightarrow> Some (d + 1)
          | Some parent_index \<Rightarrow>
              (case map_of (index_to_node st) parent_index of
              None \<Rightarrow> Some (d + 1)
              | Some parent_node \<Rightarrow> f st (parent_id (in_node parent_node)) (d + 1)))) = Some r"
  show "\<exists>n. calculate_depth_fuel n st p d = Some r"
  proof (cases p)
    case None
    then have "r = d" using eq by simp
    then have "calculate_depth_fuel 0 st p d = Some r" using None by simp
    then show ?thesis ..
  next
    case (Some pid)
    note p = this
    show ?thesis
    proof (cases "map_of (node_id_to_index st) pid")
      case None
      then have "r = d + 1" using eq p by simp
      then have "calculate_depth_fuel (Suc 0) st p d = Some r" using None p by simp
      then show ?thesis ..
    next
      case (Some i)
      note i = this
      show ?thesis
      proof (cases "map_of (index_to_node st) i")
        case None
        then have "r = d + 1" using eq p i by simp
        then have "calculate_depth_fuel (Suc 0) st p d = Some r" using None p i by simp
        then show ?thesis ..
      next
        case (Some pn)
        then have "f st (parent_id (in_node pn)) (d + 1) = Some r"
          using eq p i by simp
        then obtain n where "calculate_depth_fuel n st (parent_id (in_node pn)) (d + 1) = Some r"
          using IH by blast
        then have "calculate_depth_fuel (Suc n) st p d = Some r"
          using p i Some by simp
        then show ?thesis ..
      qed
    qed
  qed
qed

lemma calculate_depth_loop_cycle:
  assumes "map_of (node_id_to_index st) a = Some i" "map_of (index_to_node st) i = Some na"
    "parent_id (in_node na) = Some b"
    "map_of (node_id_to_index st) b = Some j" "map_of (index_to_node st) j = Some nb"
    "parent_id (in_node nb) = Some a"
  shows "calculate_depth_loop st (Some a) d = None"
proof -
  have fuel: "calculate_depth_fuel n st (Some a) d = None
              \<and> calculate_depth_fuel n st (Some b) d = None" for n d
  proof (induction n arbitrary: d)
    case 0
    show ?case by simp
  next
    case (Suc n)
    show ?case using assms Suc[of "d + 1"] by simp
  qed
  show ?thesis
  proof (cases "calculate_depth_loop st (Some a) d")
    case None
    then show ?thesis .
  next
    case (Some r)
    then obtain n where "calculate_depth_fuel n st (Some a) d = Some r"
      using calculate_depth_loop_fuel by blast
    then show ?thesis using fuel[of n d] by simp
  qed
qed

lemma get_or_create_maps:
  "get_or_create_interactive_index st node = (i, st1) \<Longrightarrow>
     node_id_to_index st1 = node_id_to_index st \<and> index_to_node st1 = index_to_node st"
  "get_or_create_element_index st node = (i, st1) \<Longrightarrow>
     node_id_to_index st1 = node_id_to_index st \<and> index_to_node st1 = index_to_node st"
  by (auto simp: get_or_create_interactive_index_def get_or_create_element_index_def
        new_index_def cache_hit_def split: option.splits if_splits)

lemma index_single_node_cycle:
  assumes "should_index_node cfg node" "parent_id node = Some a"
    "map_of (node_id_to_index st) a = Some i" "map_of (index_to_node st) i = Some na"
    "parent_id (in_node na) = Some b"
    "map_of (node_id_to_index st) b = Some j" "map_of (index_to_node st) j = Some nb"
    "parent_id (in_node nb) = Some a"
  shows "index_single_node cfg st node = None"
proof -
  obtain k st1 where g: "(if determine_index_type node = ''interactive''
                          then get_or_create_interactive_index st node
                          else get_or_create_element_index st node) = (k, st1)"
    by (cases "if determine_index_type node = ''interactive''
                          then get_or_create_interactive_index st node
                          else get_or_create_element_index st node")
  have maps: "node_id_to_index st1 = node_id_to_index st" "index_to_node st1 = index_to_node st"
    using g get_or_create_maps by (auto split: if_splits)
  have "calculate_depth st1 node = None"
    unfolding calculate_depth_def assms(2)
    by (rule calculate_depth_loop_cycle[where i = i and na = na and b = b and j = j and nb = nb])
       (simp_all add: maps assms)
  then show ?thesis
    using assms(1) g by (simp add: index_single_node_def Let_def)
qed

lemma index_loop_append:
  "index_loop cfg st (xs @ ys) acc =
     (case index_loop cfg st xs acc of
        None \<Rightarrow> None
      | Some (acc', st') \<Rightarrow> index_loop cfg st' ys acc')"
  by (induction xs arbitrary: st acc) (auto split: option.splits)

text \<open>
  Claim C8 says that the depth walk terminates for every node list, cyclic
  parent references included. It does not: for three eligible nodes with
  distinct identifiers, where the first names the second as its parent and the
  second and third name the first, the first two nodes are indexed and the walk
  for the third node alternates between the first two for ever, so the pass
  does not return. \<^verbatim>\<open>_calculate_depth\<close> has no visited set and no bound.
\<close>

theorem index_elements_cyclic_parents:
  "index_elements DOMAnalyzerConfig new_ElementIndexer cyclic_nodes = None
   \<and> index_elements DOMAnalyzerConfig new_ElementIndexer (butlast cyclic_nodes) \<noteq> None"
proof -
  let ?st0 = "new_ElementIndexer\<lparr>element_counter := 0, index_to_node := [],
                 node_id_to_index := [], xpath_to_index := []\<rparr>"
  let ?c3 = "plain_node 3 ''button'' ''C'' (Some 1)"
  have two: "\<exists>es st2. index_loop DOMAnalyzerConfig ?st0 (butlast cyclic_nodes) [] = Some (es, st2)
      \<and> map_of (node_id_to_index st2) 1 = Some 0
      \<and> map_of (node_id_to_index st2) 2 = Some 1
      \<and> (\<exists>na. map_of (index_to_node st2) 0 = Some na \<and> parent_id (in_node na) = Some 2)
      \<and> (\<exists>nb. map_of (index_to_node st2) 1 = Some nb \<and> parent_id (in_node nb) = Some 1)"
    by (simp add: index_eval cyclic_nodes_def plain_node_def)
  then obtain es st2 na nb where
    run: "index_loop DOMAnalyzerConfig ?st0 (butlast cyclic_nodes) [] = Some (es, st2)"
    and m: "map_of (node_id_to_index st2) 1 = Some 0" "map_of (node_id_to_index st2) 2 = Some 1"
      "map_of (index_to_node st2) 0 = Some na" "parent_id (in_node na) = Some 2"
      "map_of (index_to_node st2) 1 = Some nb" "parent_id (in_node nb) = Some 1"
    by auto
  have elig: "should_index_node DOMAnalyzerConfig ?c3"
    by (simp add: should_index_node_def plain_node_def DOMAnalyzerConfig_def
          AccessibilityConfig_def)
  have "index_single_node DOMAnalyzerConfig st2 ?c3 = None"
    by (rule index_single_node_cycle[OF elig _ m(1) m(3) m(4) m(2) m(5) m(6)]) (simp add: plain_node_def)
  then have "index_loop DOMAnalyzerConfig ?st0 (butlast cyclic_nodes @ [?c3]) [] = None"
    by (simp add: index_loop_append run)
  moreover have "cyclic_nodes = butlast cyclic_nodes @ [?c3]"
    by (simp add: cyclic_nodes_def)
  ultimately have "index_loop DOMAnalyzerConfig ?st0 cyclic_nodes [] = None"
    by simp
  then show ?thesis
    using run by (simp add: index_elements_def)
qed

text \<open>
  Claim C8, amended. The depth walk returns exactly when following the parent
  identifiers through the current maps ends after finitely many hops, at a node
  without parent, at an identifier absent from the identifier-to-index map (a
  dangling reference) or at an index absent from the index-to-node map, and it
  then returns the number of hops; in particular it returns 0 for a node
  without parent and 1 for a node whose parent reference dangles.
\<close>

theorem calculate_depth_returns_iff:
  "(calculate_depth st node = Some d
      \<longleftrightarrow> (\<exists>n. calculate_depth_fuel n st (parent_id node) 0 = Some d))
   \<and> (parent_id node = None \<longrightarrow> calculate_depth st node = Some 0)
   \<and> (\<forall>pid. parent_id node = Some pid \<and> map_of (node_id_to_index st) pid = None
        \<longrightarrow> calculate_depth st node = Some 1)"
proof -
  have "calculate_depth st node = Some d
      \<longleftrightarrow> (\<exists>n. calculate_depth_fuel n st (parent_id node) 0 = Some d)"
    unfolding calculate_depth_def
    using calculate_depth_loop_fuel calculate_depth_fuel_loop by blast
  moreover have "parent_id node = None \<Longrightarrow> calculate_depth st node = Some 0"
    by (simp add: calculate_depth_def calculate_depth_loop.simps)
  moreover have "parent_id node = Some pid \<Longrightarrow> map_of (node_id_to_index st) pid = None
        \<Longrightarrow> calculate_depth st node = Some 1" for pid
    by (simp add: calculate_depth_def calculate_depth_loop.simps)
  ultimately show ?thesis by blast
qed

theorem calculate_depth_returns_iff_witness:
  "parent_id dangling_node = Some 99
   \<and> map_of (node_id_to_index new_ElementIndexer) 99 = None
   \<and> calculate_depth new_ElementIndexer dangling_node = Some 1
   \<and> calculate_depth_fuel 1 new_ElementIndexer (parent_id dangling_node) 0 = Some 1
   \<and> parent_id submit_node = None
   \<and> calculate_depth new_ElementIndexer submit_node = Some 0"
  using calculate_depth_returns_iff [of new_ElementIndexer dangling_node 1]
        calculate_depth_returns_iff [of new_ElementIndexer submit_node 0]
  by (simp add: dangling_node_def plain_node_def submit_node_def new_ElementIndexer_def)

section \<open>Indexer: eligibility filter\<close>

lemma should_index_node_convert:
  "should_index_node cfg (convert_to_accessibility_node p) \<longleftrightarrow>
     \<not> (''hidden'' \<in> set (p_states p)
        \<or> (p_name p = [] \<and> p_role p = ''generic'')
        \<or> (p_name p \<noteq> [] \<and> int (length (p_name p)) > max_text_length (accessibility cfg)))"
  by (simp add: should_index_node_def convert_to_accessibility_node_def map_of_state_dict_of)

lemma get_or_create_interactive_index_stats:
  "get_or_create_interactive_index st node = (i, st1) \<Longrightarrow>
     cached_hits (stats st1) + cache_misses (stats st1)
       = cached_hits (stats st) + cache_misses (stats st) + 1"
  by (auto simp: get_or_create_interactive_index_def new_index_def cache_hit_def
        split: option.splits if_splits)

lemma get_or_create_element_index_stats:
  "get_or_create_element_index st node = (i, st1) \<Longrightarrow>
     cached_hits (stats st1) + cache_misses (stats st1)
       = cached_hits (stats st) + cache_misses (stats st) + 1"
  by (auto simp: get_or_create_element_index_def new_index_def cache_hit_def
        split: option.splits if_splits)

lemma index_single_node_eligible:
  assumes "should_index_node cfg node" and "index_single_node cfg st node = Some (r, st')"
  shows "map_of (node_id_to_index st') (node_id node) \<noteq> None
         \<and> cached_hits (stats st') + cache_misses (stats st')
             = cached_hits (stats st) + cache_misses (stats st) + 1"
proof -
  obtain i st1 where g: "(if determine_index_type node = ''interactive''
                          then get_or_create_interactive_index st node
                          else get_or_create_element_index st node) = (i, st1)"
    by (cases "if determine_index_type node = ''interactive''
                          then get_or_create_interactive_index st node
                          else get_or_create_element_index st node")
  have s1: "cached_hits (stats st1) + cache_misses (stats st1)
             = cached_hits (stats st) + cache_misses (stats st) + 1"
    using g get_or_create_interactive_index_stats get_or_create_element_index_stats
    by (auto split: if_splits)
  show ?thesis
    using assms s1 g
    by (auto simp: index_single_node_def Let_def update_conv'
          split: option.splits sum.splits if_splits)
qed


text \<open>
  The depth walk reads the two current maps only, so the assignment of the
  index, which changes the counter and the statistics, does not change it.
\<close>

lemma calculate_depth_fuel_maps:
  assumes "node_id_to_index st1 = node_id_to_index st" "index_to_node st1 = index_to_node st"
  shows "calculate_depth_fuel n st1 p d = calculate_depth_fuel n st p d"
proof (induction n arbitrary: p d)
  case 0
  show ?case by (cases p) simp_all
next
  case (Suc n)
  show ?case
    by (cases p) (simp_all add: assms Suc split: option.splits)
qed

lemma calculate_depth_loop_maps:
  assumes "node_id_to_index st1 = node_id_to_index st" "index_to_node st1 = index_to_node st"
  shows "calculate_depth_loop st1 p d = calculate_depth_loop st p d"
proof (cases "calculate_depth_loop st p d")
  case None
  show ?thesis
  proof (cases "calculate_depth_loop st1 p d")
    case (Some r)
    then obtain n where "calculate_depth_fuel n st1 p d = Some r"
      using calculate_depth_loop_fuel by blast
    then have "calculate_depth_fuel n st p d = Some r"
      by (simp add: calculate_depth_fuel_maps[OF assms])
    then have "calculate_depth_loop st p d = Some r" by (rule calculate_depth_fuel_loop)
    then show ?thesis using None by simp
  qed (simp add: None)
next
  case (Some r)
  then obtain n where "calculate_depth_fuel n st p d = Some r"
    using calculate_depth_loop_fuel by blast
  then have "calculate_depth_fuel n st1 p d = Some r"
    by (simp add: calculate_depth_fuel_maps[OF assms])
  then have "calculate_depth_loop st1 p d = Some r" by (rule calculate_depth_fuel_loop)
  then show ?thesis using Some by simp
qed

text \<open>
  The step on an eligible node returns exactly when the depth walk of the node
  returns, and then the node's identifier is in the identifier map.
\<close>

lemma index_single_node_returns:
  assumes "should_index_node cfg node"
  shows "(calculate_depth st node = None \<longrightarrow> index_single_node cfg st node = None)
       \<and> (calculate_depth st node \<noteq> None
            \<longrightarrow> (\<exists>r st'. index_single_node cfg st node = Some (r, st')
                   \<and> map_of (node_id_to_index st') (node_id node) \<noteq> None))"
proof -
  obtain k st1 where g: "(if determine_index_type node = ''interactive''
                          then get_or_create_interactive_index st node
                          else get_or_create_element_index st node) = (k, st1)"
    by (cases "if determine_index_type node = ''interactive''
                          then get_or_create_interactive_index st node
                          else get_or_create_element_index st node")
  have maps: "node_id_to_index st1 = node_id_to_index st" "index_to_node st1 = index_to_node st"
    using g get_or_create_maps by (auto split: if_splits)
  have depth: "calculate_depth st1 node = calculate_depth st node"
    by (simp add: calculate_depth_def calculate_depth_loop_maps[OF maps])
  have none: "calculate_depth st node = None \<Longrightarrow> index_single_node cfg st node = None"
    using assms g depth by (simp add: index_single_node_def Let_def)
  have some: "\<exists>r st'. index_single_node cfg st node = Some (r, st')
                   \<and> map_of (node_id_to_index st') (node_id node) \<noteq> None"
    if "calculate_depth st node \<noteq> None"
  proof -
    from that obtain d where "calculate_depth st1 node = Some d" using depth by auto
    then have "index_single_node cfg st node \<noteq> None"
      using assms g by (simp add: index_single_node_def Let_def split: sum.splits)
    then obtain r st' where r: "index_single_node cfg st node = Some (r, st')"
      by (cases "index_single_node cfg st node") auto
    from index_single_node_eligible[OF assms r] r show ?thesis by blast
  qed
  show ?thesis using none some by blast
qed

lemma parse_cyclic_data:
  "parse_accessibility_tree (accessibility DOMAnalyzerConfig) (Some cyclic_data) = cyclic_nodes"
  by (simp add: parse_eval cyclic_data_def cyclic_nodes_def plain_node_def)

text \<open>The pass over the three nodes with cyclic parent references does not return.\<close>

lemma index_elements_cyclic_nodes:
  "index_elements DOMAnalyzerConfig new_ElementIndexer cyclic_nodes = None"
proof -
  let ?st0 = "new_ElementIndexer\<lparr>element_counter := 0, index_to_node := [],
                 node_id_to_index := [], xpath_to_index := []\<rparr>"
  let ?c3 = "plain_node 3 ''button'' ''C'' (Some 1)"
  have "\<exists>es st2. index_loop DOMAnalyzerConfig ?st0 (butlast cyclic_nodes) [] = Some (es, st2)
      \<and> map_of (node_id_to_index st2) 1 = Some 0
      \<and> map_of (node_id_to_index st2) 2 = Some 1
      \<and> (\<exists>na. map_of (index_to_node st2) 0 = Some na \<and> parent_id (in_node na) = Some 2)
      \<and> (\<exists>nb. map_of (index_to_node st2) 1 = Some nb \<and> parent_id (in_node nb) = Some 1)"
    by (simp add: index_eval cyclic_nodes_def plain_node_def)
  then obtain es st2 na nb where
    run: "index_loop DOMAnalyzerConfig ?st0 (butlast cyclic_nodes) [] = Some (es, st2)"
    and m: "map_of (node_id_to_index st2) 1 = Some 0" "map_of (node_id_to_index st2) 2 = Some 1"
      "map_of (index_to_node st2) 0 = Some na" "parent_id (in_node na) = Some 2"
      "map_of (index_to_node st2) 1 = Some nb" "parent_id (in_node nb) = Some 1"
    by auto
  have elig: "should_index_node DOMAnalyzerConfig ?c3"
    by (simp add: should_index_node_def plain_node_def DOMAnalyzerConfig_def
          AccessibilityConfig_def)
  have "index_single_node DOMAnalyzerConfig st2 ?c3 = None"
    by (rule index_single_node_cycle[OF elig _ m(1) m(3) m(4) m(2) m(5) m(6)])
       (simp add: plain_node_def)
  then have "index_loop DOMAnalyzerConfig ?st0 (butlast cyclic_nodes @ [?c3]) [] = None"
    by (simp add: index_loop_append run)
  moreover have "cyclic_nodes = butlast cyclic_nodes @ [?c3]"
    by (simp add: cyclic_nodes_def)
  ultimately have "index_loop DOMAnalyzerConfig ?st0 cyclic_nodes [] = None"
    by simp
  then show ?thesis by (simp add: index_elements_def)
qed

text \<open>
  Claim C5 says that a parsed node gets no element and no index exactly when it
  is hidden, or unnamed and generic, or its name is longer than the configured
  maximum. Two passes show the limits. With a negative maximum the unnamed
  button that the parser produces has a name longer than the maximum, and it is
  indexed: the code tests the length of a non-empty name only. With the default
  configuration the three buttons with cyclic parent references are all
  eligible, and the pass never returns, so that the third one gets neither an
  element nor an entry in the maps.
\<close>

theorem index_elements_filter_limits:
  "(\<exists>e st. index_elements negative_length_config new_ElementIndexer
               (parse_accessibility_tree (accessibility negative_length_config)
                  (Some [button_data]))
             = Some ([e], st)
          \<and> ie_index e = 0
          \<and> ie_text e = []
          \<and> int (length (ie_text e)) > max_text_length (accessibility negative_length_config)
          \<and> map_of (node_id_to_index st) 0 = Some 0)
   \<and> list_all (\<lambda>node. map_of (state node) ''hidden'' = None \<and> name node \<noteq> []
                  \<and> int (length (name node))
                      \<le> max_text_length (accessibility DOMAnalyzerConfig))
        (parse_accessibility_tree (accessibility DOMAnalyzerConfig) (Some cyclic_data))
   \<and> index_elements DOMAnalyzerConfig new_ElementIndexer
        (parse_accessibility_tree (accessibility DOMAnalyzerConfig) (Some cyclic_data)) = None"
proof -
  have "parse_accessibility_tree (accessibility negative_length_config) (Some [button_data])
          = [plain_node 0 ''button'' [] None]"
    by (simp add: parse_eval negative_length_config_def button_data_def plain_node_def)
  then have a: "\<exists>e st. index_elements negative_length_config new_ElementIndexer
               (parse_accessibility_tree (accessibility negative_length_config)
                  (Some [button_data]))
             = Some ([e], st)
          \<and> ie_index e = 0
          \<and> ie_text e = []
          \<and> int (length (ie_text e)) > max_text_length (accessibility negative_length_config)
          \<and> map_of (node_id_to_index st) 0 = Some 0"
    by (simp add: index_eval negative_length_config_def plain_node_def)
  have b: "list_all (\<lambda>node. map_of (state node) ''hidden'' = None \<and> name node \<noteq> []
                  \<and> int (length (name node))
                      \<le> max_text_length (accessibility DOMAnalyzerConfig))
        (parse_accessibility_tree (accessibility DOMAnalyzerConfig) (Some cyclic_data))"
    unfolding parse_cyclic_data
    by (simp add: cyclic_nodes_def plain_node_def DOMAnalyzerConfig_def AccessibilityConfig_def)
  show ?thesis
    using a b index_elements_cyclic_nodes by (simp only: parse_cyclic_data simp_thms)
qed

text \<open>
  Claim C5, amended. For every parsed node, the indexing step returns no
  element and leaves the indexer exactly as it was, so that no index is
  assigned, if and only if the node's state labels include hidden, or its name
  is empty and its role is generic, or its name is not empty and longer than
  the configured maximum; for a maximum that is not negative the last condition
  is that the name is longer than the maximum. For a node that is not excluded,
  the step returns exactly when the depth walk of the node returns, which it
  does for every node without parent, and the node's identifier is then mapped
  to an index; when the walk does not return, neither does the step. In
  particular a node with the label hidden yields nothing whatever its role.
\<close>

theorem index_single_node_filter:
  "(index_single_node cfg st (convert_to_accessibility_node p) = Some (None, st)
      \<longleftrightarrow> (''hidden'' \<in> set (p_states p)
           \<or> (p_name p = [] \<and> p_role p = ''generic'')
           \<or> (p_name p \<noteq> []
               \<and> int (length (p_name p)) > max_text_length (accessibility cfg))))
   \<and> (0 \<le> max_text_length (accessibility cfg)
      \<longrightarrow> (index_single_node cfg st (convert_to_accessibility_node p) = Some (None, st)
            \<longleftrightarrow> (''hidden'' \<in> set (p_states p)
                 \<or> (p_name p = [] \<and> p_role p = ''generic'')
                 \<or> int (length (p_name p)) > max_text_length (accessibility cfg))))
   \<and> (\<not> (''hidden'' \<in> set (p_states p)
           \<or> (p_name p = [] \<and> p_role p = ''generic'')
           \<or> (p_name p \<noteq> []
               \<and> int (length (p_name p)) > max_text_length (accessibility cfg)))
      \<longrightarrow> (calculate_depth st (convert_to_accessibility_node p) = None
             \<longrightarrow> index_single_node cfg st (convert_to_accessibility_node p) = None)
          \<and> (calculate_depth st (convert_to_accessibility_node p) \<noteq> None
               \<or> p_parent_id p = None
             \<longrightarrow> (\<exists>r st'. index_single_node cfg st (convert_to_accessibility_node p)
                             = Some (r, st')
                    \<and> map_of (node_id_to_index st') (p_node_id p) \<noteq> None)))"
proof -
  let ?n = "convert_to_accessibility_node p"
  let ?excluded = "''hidden'' \<in> set (p_states p)
               \<or> (p_name p = [] \<and> p_role p = ''generic'')
               \<or> (p_name p \<noteq> []
                   \<and> int (length (p_name p)) > max_text_length (accessibility cfg))"
  have ex: "should_index_node cfg ?n \<longleftrightarrow> \<not> ?excluded"
    by (simp add: should_index_node_convert)
  have a: "?excluded \<Longrightarrow> index_single_node cfg st ?n = Some (None, st)"
    using ex by (simp add: index_single_node_def)
  have b: "index_single_node cfg st ?n = Some (None, st) \<Longrightarrow> ?excluded"
  proof (rule ccontr)
    assume r: "index_single_node cfg st ?n = Some (None, st)" and "\<not> ?excluded"
    then have "should_index_node cfg ?n" using ex by simp
    from index_single_node_eligible[OF this r] show False by simp
  qed
  have iff: "index_single_node cfg st ?n = Some (None, st) \<longleftrightarrow> ?excluded"
    using a b by blast
  have nonneg: "0 \<le> max_text_length (accessibility cfg) \<Longrightarrow>
      ?excluded \<longleftrightarrow> (''hidden'' \<in> set (p_states p)
                 \<or> (p_name p = [] \<and> p_role p = ''generic'')
                 \<or> int (length (p_name p)) > max_text_length (accessibility cfg))"
    by auto
  have root: "p_parent_id p = None \<Longrightarrow> calculate_depth st ?n \<noteq> None"
    by (simp add: calculate_depth_def calculate_depth_loop.simps
          convert_to_accessibility_node_def)
  have id: "node_id ?n = p_node_id p" by (simp add: convert_to_accessibility_node_def)
  have c: "\<not> ?excluded \<Longrightarrow>
             (calculate_depth st ?n = None \<longrightarrow> index_single_node cfg st ?n = None)
           \<and> (calculate_depth st ?n \<noteq> None \<or> p_parent_id p = None
               \<longrightarrow> (\<exists>r st'. index_single_node cfg st ?n = Some (r, st')
                      \<and> map_of (node_id_to_index st') (p_node_id p) \<noteq> None))"
    using index_single_node_returns[of cfg ?n st] ex root id by auto
  show ?thesis using iff nonneg c by blast
qed

theorem index_single_node_filter_witness:
  "''hidden'' \<in> set (p_states hidden_button_parsed)
   \<and> index_single_node DOMAnalyzerConfig new_ElementIndexer
        (convert_to_accessibility_node hidden_button_parsed) = Some (None, new_ElementIndexer)
   \<and> 0 \<le> max_text_length (accessibility DOMAnalyzerConfig)
   \<and> \<not> (''hidden'' \<in> set (p_states button_parsed)
         \<or> (p_name button_parsed = [] \<and> p_role button_parsed = ''generic'')
         \<or> int (length (p_name button_parsed)) > max_text_length (accessibility DOMAnalyzerConfig))
   \<and> p_parent_id button_parsed = None
   \<and> index_single_node DOMAnalyzerConfig new_ElementIndexer
        (convert_to_accessibility_node button_parsed) \<noteq> Some (None, new_ElementIndexer)
   \<and> (\<exists>r st'. index_single_node DOMAnalyzerConfig new_ElementIndexer
                     (convert_to_accessibility_node button_parsed) = Some (r, st')
               \<and> map_of (node_id_to_index st') (p_node_id button_parsed) \<noteq> None)
   \<and> (\<exists>el st'. index_single_node DOMAnalyzerConfig new_ElementIndexer
                     (convert_to_accessibility_node button_parsed) = Some (Some el, st')
               \<and> ie_index el = 0
               \<and> map_of (node_id_to_index st') (p_node_id button_parsed) = Some 0)"
proof -
  have run: "\<exists>el st'. index_single_node DOMAnalyzerConfig new_ElementIndexer
                     (convert_to_accessibility_node button_parsed) = Some (Some el, st')
               \<and> ie_index el = 0
               \<and> map_of (node_id_to_index st') (p_node_id button_parsed) = Some 0"
    by (simp add: index_eval button_parsed_def button_data_def extract_node_states_def
          empty_node_data_def top_state_def convert_to_accessibility_node_def
          state_dict_of_def)
  have facts: "''hidden'' \<in> set (p_states hidden_button_parsed)
      \<and> 0 \<le> max_text_length (accessibility DOMAnalyzerConfig)
      \<and> \<not> (''hidden'' \<in> set (p_states button_parsed)
         \<or> (p_name button_parsed = [] \<and> p_role button_parsed = ''generic'')
         \<or> int (length (p_name button_parsed)) > max_text_length (accessibility DOMAnalyzerConfig))
      \<and> p_parent_id button_parsed = None \<and> p_name button_parsed \<noteq> []"
    by (simp add: DOMAnalyzerConfig_def AccessibilityConfig_def hidden_button_parsed_def
          button_parsed_def button_data_def extract_node_states_def empty_node_data_def
          top_state_def)
  have hid: "''hidden'' \<in> set (p_states hidden_button_parsed)"
    and nonneg: "0 \<le> max_text_length (accessibility DOMAnalyzerConfig)"
    and elig: "\<not> (''hidden'' \<in> set (p_states button_parsed)
         \<or> (p_name button_parsed = [] \<and> p_role button_parsed = ''generic'')
         \<or> int (length (p_name button_parsed)) > max_text_length (accessibility DOMAnalyzerConfig))"
    and root: "p_parent_id button_parsed = None"
    using facts by simp_all
  from conjunct1[OF index_single_node_filter
                      [of DOMAnalyzerConfig new_ElementIndexer hidden_button_parsed]] hid
  have a: "index_single_node DOMAnalyzerConfig new_ElementIndexer
        (convert_to_accessibility_node hidden_button_parsed) = Some (None, new_ElementIndexer)"
    by simp
  from conjunct1[OF conjunct2[OF index_single_node_filter
                      [of DOMAnalyzerConfig new_ElementIndexer button_parsed]]] nonneg elig
  have b: "index_single_node DOMAnalyzerConfig new_ElementIndexer
        (convert_to_accessibility_node button_parsed) \<noteq> Some (None, new_ElementIndexer)"
    by simp
  from conjunct2[OF conjunct2[OF index_single_node_filter
                      [of DOMAnalyzerConfig new_ElementIndexer button_parsed]]] elig root
  have c: "\<exists>r st'. index_single_node DOMAnalyzerConfig new_ElementIndexer
                     (convert_to_accessibility_node button_parsed) = Some (r, st')
               \<and> map_of (node_id_to_index st') (p_node_id button_parsed) \<noteq> None"
    by simp
  show ?thesis
    using hid a nonneg elig root b c run by (intro conjI)
qed

text \<open>
  An eligible node whose role is outside the \<^verbatim>\<open>ElementRole\<close> vocabulary is a
  separate matter: it is assigned an index and written to the maps, and then
  the conversion raises \<^verbatim>\<open>ValueError\<close>, which \<^verbatim>\<open>_index_single_node\<close>
  catches, so that no element is returned for it.
\<close>

lemma index_single_node_unknown_role:
  "\<exists>st'. index_single_node DOMAnalyzerConfig new_ElementIndexer heading_node = Some (None, st')
         \<and> map_of (node_id_to_index st') (node_id heading_node) = Some 0
         \<and> element_counter st' = 1"
  by (simp add: index_eval heading_node_def)

section \<open>Indexer: index assignment across and within passes\<close>

text \<open>
  Claim C1 at its failing input. The first pass indexes the nodes 41 and 42
  and gives node 42 the index 1, which is saved in the previous-pass map. The
  second pass sees the same node 42 alone, node 41 having been removed: the
  lookup in \<^verbatim>\<open>_get_or_create_interactive_index\<close> reads the current map,
  which \<^verbatim>\<open>index_elements\<close> has just cleared, so node 42 gets the fresh
  index 0 and not its previous index 1.
\<close>

theorem index_elements_second_pass_renumbers:
  "\<exists>es1 st1 es2 st2.
     index_elements DOMAnalyzerConfig new_ElementIndexer [cancel_node, save_node]
       = Some (es1, st1)
     \<and> map ie_index es1 = [0, 1]
     \<and> map_of (previous_indices st1) 42 = Some 1
     \<and> index_elements DOMAnalyzerConfig st1 [save_node] = Some (es2, st2)
     \<and> map ie_index es2 = [0]
     \<and> map_of (node_id_to_index st2) 42 = Some 0"
  by (simp add: index_eval cancel_node_def save_node_def plain_node_def)

text \<open>
  Claim C9 at its failing input. Two raw nodes without an identifier are both
  parsed with the identifier 0; the second one finds the first one's entry in
  the current map and takes its index, so the returned list carries the index
  0 twice.
\<close>

theorem index_elements_duplicate_index:
  "\<exists>es st.
     index_elements DOMAnalyzerConfig new_ElementIndexer
       (parse_accessibility_tree (accessibility DOMAnalyzerConfig) (Some unnumbered_data))
       = Some (es, st)
     \<and> map ie_index es = [0, 0]
     \<and> map ie_text es = [''A'', ''B'']"
proof -
  have "parse_accessibility_tree (accessibility DOMAnalyzerConfig) (Some unnumbered_data)
          = [plain_node 0 ''button'' ''A'' None, plain_node 0 ''button'' ''B'' None]"
    by (simp add: parse_eval unnumbered_data_def plain_node_def)
  then show ?thesis
    by (simp add: index_eval plain_node_def)
qed

section \<open>Indexer: queries after a pass\<close>

lemma set_update_subset: "set (AList.update k v al) \<subseteq> insert (k, v) (set al)"
  by (induction al) auto

lemma index_single_node_step:
  assumes "index_single_node cfg st node = Some (r, st')"
  shows "index_to_node st' = index_to_node st
         \<or> (\<exists>i n. index_to_node st' = AList.update i n (index_to_node st)
                \<and> in_index n = i \<and> in_node n = node
                \<and> in_is_interactive n = (determine_index_type node = ''interactive''))"
proof (cases "should_index_node cfg node")
  case False
  then show ?thesis using assms by (simp add: index_single_node_def)
next
  case True
  obtain k st1 where g: "(if determine_index_type node = ''interactive''
                          then get_or_create_interactive_index st node
                          else get_or_create_element_index st node) = (k, st1)"
    by (cases "if determine_index_type node = ''interactive''
                          then get_or_create_interactive_index st node
                          else get_or_create_element_index st node")
  have maps: "index_to_node st1 = index_to_node st"
    using g get_or_create_maps by (auto split: if_splits)
  obtain d where depth: "calculate_depth st1 node = Some d"
    using assms True g by (cases "calculate_depth st1 node") (auto simp: index_single_node_def)
  define n where "n =
      \<lparr>in_node = node, in_index = k, in_parent_index = get_parent_index st1 node,
       in_children_indices = get_children_indices st1 node, in_depth = d,
       in_is_new = is_node_new st1 node, in_bounding_box = None,
       in_xpath = generate_xpath node, in_tag_name = extract_tag_name node,
       in_attributes = extract_attributes node,
       in_is_interactive = (determine_index_type node = ''interactive''),
       in_interactive_type =
         (if determine_index_type node = ''interactive'' then determine_index_type node
          else [])\<rparr>"
  have "index_to_node st' = AList.update k n (index_to_node st1)"
    using assms True g depth
    by (auto simp: index_single_node_def Let_def n_def split: sum.splits)
  then have "index_to_node st' = AList.update k n (index_to_node st) \<and> in_index n = k
        \<and> in_node n = node
        \<and> in_is_interactive n = (determine_index_type node = ''interactive'')"
    by (simp add: maps n_def)
  then show ?thesis by blast
qed

lemma stored_ok_step:
  assumes "stored_ok nodes st" "node \<in> set nodes"
    and "index_single_node cfg st node = Some (r, st')"
  shows "stored_ok nodes st'"
proof -
  from index_single_node_step[OF assms(3)]
  consider "index_to_node st' = index_to_node st"
    | i n where "index_to_node st' = AList.update i n (index_to_node st)" "in_index n = i"
        "in_node n = node" "in_is_interactive n = (determine_index_type node = ''interactive'')"
    by blast
  then show ?thesis
  proof cases
    case 1
    then show ?thesis using assms(1) by (simp add: stored_ok_def)
  next
    case 2
    have d: "distinct (map fst (index_to_node st'))"
      using assms(1) 2(1) by (simp add: stored_ok_def distinct_update)
    have "\<forall>x \<in> set (index_to_node st'). case x of (k, m) \<Rightarrow>
            in_index m = k \<and> in_node m \<in> set nodes
            \<and> in_is_interactive m = (determine_index_type (in_node m) = ''interactive'')"
    proof
      fix x assume "x \<in> set (index_to_node st')"
      then have "x = (i, n) \<or> x \<in> set (index_to_node st)"
        using set_update_subset[of i n "index_to_node st"] 2(1) by auto
      then show "case x of (k, m) \<Rightarrow>
            in_index m = k \<and> in_node m \<in> set nodes
            \<and> in_is_interactive m = (determine_index_type (in_node m) = ''interactive'')"
        using assms(1,2) 2(2,3,4) by (auto simp: stored_ok_def list_all_iff)
    qed
    then show ?thesis using d by (simp add: stored_ok_def list_all_iff)
  qed
qed

lemma stored_ok_loop:
  assumes "stored_ok nodes st" "set xs \<subseteq> set nodes"
    and "index_loop cfg st xs acc = Some (es, st')"
  shows "stored_ok nodes st'"
  using assms
proof (induction xs arbitrary: st acc)
  case Nil
  then show ?case by simp
next
  case (Cons x xs)
  from Cons.prems(3) obtain r st1 where
    s: "index_single_node cfg st x = Some (r, st1)"
    and l: "index_loop cfg st1 xs (case r of None \<Rightarrow> acc | Some e \<Rightarrow> acc @ [e]) = Some (es, st')"
    by (auto split: option.splits)
  have "stored_ok nodes st1"
    using stored_ok_step[OF Cons.prems(1) _ s] Cons.prems(2) by simp
  then show ?case
    using Cons.IH[OF _ _ l] Cons.prems(2) by simp
qed

lemma stored_ok_index_elements:
  assumes "index_elements cfg st0 nodes = Some (es, st)"
  shows "stored_ok nodes st"
proof -
  let ?s = "st0\<lparr>element_counter := 0, index_to_node := [], node_id_to_index := [],
               xpath_to_index := []\<rparr>"
  have init: "stored_ok nodes ?s" by (simp add: stored_ok_def)
  from assms obtain st1 where
    l: "index_loop cfg ?s nodes [] = Some (es, st1)"
    and st: "st = save_current_indices (update_indexing_stats st1 (int (length es)))"
    by (auto simp: index_elements_def Let_def split: option.splits)
  have "stored_ok nodes st1"
    using stored_ok_loop[OF init _ l] by simp
  then show ?thesis
    by (simp add: st stored_ok_def save_current_indices_def update_indexing_stats_def)
qed




lemma by_value_member: "(e, nm, s) \<in> set ms \<Longrightarrow> \<exists>r. by_value ms s = Inr r"
  by (induction ms) auto

lemma by_value_known:
  "s \<in> set (map (\<lambda>(e, nm, v). v) ms) \<Longrightarrow> \<exists>r. by_value ms s = Inr r"
  using by_value_member by fastforce



lemma convert_to_indexed_element_known:
  assumes "role (in_node n) = [] \<or> role (in_node n) \<in> role_values"
  shows "\<exists>e. convert_to_indexed_element n = Inr e"
proof (cases "role (in_node n) = []")
  case True
  then show ?thesis by (simp add: convert_to_indexed_element_def)
next
  case False
  then obtain r where "by_value ElementRole_members (role (in_node n)) = Inr r"
    using assms by_value_known[of "role (in_node n)" ElementRole_members]
    by (auto simp: role_values_def)
  then show ?thesis using False by (simp add: convert_to_indexed_element_def)
qed


lemma convert_all_total:
  "\<forall>n \<in> set ns. \<exists>e. convert_to_indexed_element n = Inr e
     \<Longrightarrow> \<exists>xs. convert_all ns = Inr xs"
proof (induction ns)
  case Nil
  then show ?case by simp
next
  case (Cons n ns)
  then obtain e xs where "convert_to_indexed_element n = Inr e" "convert_all ns = Inr xs"
    by auto
  then show ?case by simp
qed










text \<open>
  Every node the parser produces that the indexer puts in the interactive
  category has a role of the \<^verbatim>\<open>ElementRole\<close> vocabulary.
\<close>

lemma parsed_interactive_roles_known:
  "list_all (\<lambda>node. determine_index_type node = ''interactive''
                \<longrightarrow> role node = [] \<or> role node \<in> role_values)
     (parse_accessibility_tree cfg ax_tree_data)"
proof (cases ax_tree_data)
  case None
  then show ?thesis by (simp add: parse_accessibility_tree_def)
next
  case (Some nodes_data)
  have "determine_index_type (convert_to_accessibility_node (classify_node cfg p))
          = ''interactive''
        \<longrightarrow> role (convert_to_accessibility_node (classify_node cfg p)) \<in> role_values"
    if p: "parse_single_node cfg nd = Some p" for nd p
  proof -
    have "p_states p = extract_node_states nd"
      using p by (auto simp: parse_single_node_def split: sum.splits)
    then have "\<forall>s \<in> {''clickable'', ''pressable'', ''selectable'', ''focusable''}.
                 s \<notin> set (p_states (classify_node cfg p))"
      using extract_node_states_subset[of nd]
      by (auto simp: important_states_def classify_node_def)
    then have "determine_index_type (convert_to_accessibility_node (classify_node cfg p))
                 = ''interactive''
               \<longleftrightarrow> p_role (classify_node cfg p) \<in> default_interactive_roles"
      by (simp add: determine_index_type_convert)
    moreover have "default_interactive_roles \<subseteq> role_values"
      by (simp add: default_interactive_roles_def role_values_def ElementRole_members_def)
    ultimately show ?thesis
      by (auto simp: convert_to_accessibility_node_def)
  qed
  then show ?thesis
    using Some
    by (auto simp: parse_accessibility_tree_def list_all_iff map_filter_def)
qed






text \<open>
  After a pass over nodes whose interactive members have a role of the
  vocabulary, every stored interactive node can be converted, so that
  \<^verbatim>\<open>get_interactive_elements\<close> returns.
\<close>

lemma stored_interactive_convertible:
  assumes ok: "stored_ok nodes st"
    and known: "list_all (\<lambda>node. determine_index_type node = ''interactive''
                        \<longrightarrow> role node = [] \<or> role node \<in> role_values) nodes"
  shows "\<exists>zs. convert_all (filter in_is_interactive (map snd (index_to_node st))) = Inr zs"
proof -
  have "\<exists>e. convert_to_indexed_element n = Inr e"
    if n: "n \<in> set (filter in_is_interactive (map snd (index_to_node st)))" for n
  proof -
    from n obtain k where "(k, n) \<in> set (index_to_node st)" "in_is_interactive n" by auto
    then have "in_node n \<in> set nodes" "determine_index_type (in_node n) = ''interactive''"
      using ok by (auto simp: stored_ok_def list_all_iff)
    then have "role (in_node n) = [] \<or> role (in_node n) \<in> role_values"
      using known by (auto simp: list_all_iff)
    then show ?thesis by (rule convert_to_indexed_element_known)
  qed
  then show ?thesis using convert_all_total by blast
qed

lemma get_interactive_elements_parsed:
  assumes "index_elements cfg st0 (parse_accessibility_tree acfg ax_tree_data) = Some (es, st)"
  shows "\<exists>xs. get_interactive_elements st = Inr xs"
proof -
  obtain zs where
    "convert_all (filter in_is_interactive (map snd (index_to_node st))) = Inr zs"
    using stored_interactive_convertible[OF stored_ok_index_elements[OF assms]
            parsed_interactive_roles_known]
    by blast
  then show ?thesis by (simp add: get_interactive_elements_def)
qed




end
